theory Spec2Isabelle
  imports Complex_Main "HOL-Library.Word"
begin

unbundle bit_operations_syntax

section \<open>Errors\<close>

text \<open>
  Every exception the modelled code can raise is a value. The first three are raised by
  the platform (\<open>atob\<close>, the \<open>Int16Array\<close> constructor, \<open>createBuffer\<close>); \<open>TypeError\<close> is
  a property read on \<open>undefined\<close>; \<open>Error\<close> carries the message of an \<open>Error\<close> object
  thrown by the code itself or by a remote call.
\<close>

datatype exn =
    InvalidCharacterError
  | RangeError
  | NotSupportedError
  | TypeError string
  | Error string

text \<open>\<open>e.message\<close>. The texts of the platform's own errors are engine-specific; the
  model fixes one text for each.\<close>

fun message :: "exn \<Rightarrow> string" where
  "message InvalidCharacterError = ''The string to be decoded is not correctly encoded.''"
| "message RangeError = ''byte length of Int16Array should be a multiple of 2''"
| "message NotSupportedError = ''The number of frames provided (0) is less than or equal to the minimum bound (0).''"
| "message (TypeError m) = m"
| "message (Error m) = m"

section \<open>PCM codec (src/utils/audioUtils.ts)\<close>

subsection \<open>Platform: base64 (\<open>btoa\<close>, \<open>atob\<close>)\<close>

text \<open>
  \<open>btoa\<close> and \<open>atob\<close> are browser built-ins. They are modelled after the WHATWG
  definitions: \<open>btoa\<close> is padded base64 over a binary string, \<open>atob\<close> is the
  forgiving-base64 decoder (ASCII whitespace removed, padding optional, failure on a
  length of 1 modulo 4 or on a character outside the alphabet). A binary string is a
  \<open>string\<close> whose characters are the bytes.
\<close>

definition b64chars :: string where
  "b64chars = ''ABCDEFGHIJKLMNOPQRSTUVWXYZabcdefghijklmnopqrstuvwxyz0123456789+/''"

definition b64enc :: "nat \<Rightarrow> char" where
  "b64enc n = b64chars ! n"

fun index_of :: "char \<Rightarrow> string \<Rightarrow> nat option" where
  "index_of c [] = None"
| "index_of c (x # xs) = (if c = x then Some 0 else map_option Suc (index_of c xs))"

definition b64val :: "char \<Rightarrow> nat option" where
  "b64val c = index_of c b64chars"

fun sextets_of :: "string \<Rightarrow> nat list" where
  "sextets_of [] = []"
| "sextets_of [a] =
     (let n = (of_char a :: nat) * 16 in [n div 64, n mod 64])"
| "sextets_of [a, b] =
     (let n = (of_char a :: nat) * 1024 + of_char b * 4
      in [n div 4096, n div 64 mod 64, n mod 64])"
| "sextets_of (a # b # c # rest) =
     (let n = (of_char a :: nat) * 65536 + of_char b * 256 + of_char c
      in [n div 262144, n div 4096 mod 64, n div 64 mod 64, n mod 64]) @ sextets_of rest"

definition padding :: "string \<Rightarrow> string" where
  "padding s = replicate ((3 - length s mod 3) mod 3) (CHR ''='')"

definition btoa :: "string \<Rightarrow> string" where
  "btoa s = map b64enc (sextets_of s) @ padding s"

definition is_ascii_whitespace :: "char \<Rightarrow> bool" where
  "is_ascii_whitespace c \<longleftrightarrow> (of_char c :: nat) \<in> {9, 10, 12, 13, 32}"

definition strip_padding :: "string \<Rightarrow> string" where
  "strip_padding d =
     (if length d mod 4 = 0 then
        (if 2 \<le> length d \<and> drop (length d - 2) d = ''=='' then take (length d - 2) d
         else if 1 \<le> length d \<and> drop (length d - 1) d = ''='' then take (length d - 1) d
         else d)
      else d)"

fun bytes_of_sextets :: "nat list \<Rightarrow> string" where
  "bytes_of_sextets (s1 # s2 # s3 # s4 # rest) =
     (let n = s1 * 262144 + s2 * 4096 + s3 * 64 + s4
      in [char_of (n div 65536), char_of (n div 256 mod 256), char_of (n mod 256)])
     @ bytes_of_sextets rest"
| "bytes_of_sextets [s1, s2, s3] =
     (let n = (s1 * 4096 + s2 * 64 + s3) div 4
      in [char_of (n div 256), char_of (n mod 256)])"
| "bytes_of_sextets [s1, s2] = [char_of ((s1 * 64 + s2) div 16)]"
| "bytes_of_sextets _ = []"

definition atob :: "string \<Rightarrow> exn + string" where
  "atob data =
     (let d = strip_padding (filter (\<lambda>c. \<not> is_ascii_whitespace c) data)
      in if length d mod 4 = 1 then Inl InvalidCharacterError
         else (case those (map b64val d) of
                 None \<Rightarrow> Inl InvalidCharacterError
               | Some vs \<Rightarrow> Inr (bytes_of_sextets vs)))"

subsection \<open>Typed arrays\<close>

type_synonym int16 = "16 word"
type_synonym uint8 = "8 word"

text \<open>Storing a finite Number into an \<open>Int16Array\<close> element (\<open>ToInt16\<close>): the fraction
  is cut off towards zero and the integer wraps modulo \<open>2^16\<close>.\<close>

definition toInt16 :: "real \<Rightarrow> int16" where
  "toInt16 v = word_of_int (if v < 0 then \<lceil>v\<rceil> else \<lfloor>v\<rfloor>)"

text \<open>\<open>new Uint8Array(int16Data.buffer)\<close> and \<open>new Int16Array(bytes.buffer)\<close>: two views
  of one buffer, low byte first (the byte order of every platform the code runs on).
  The \<open>Int16Array\<close> constructor throws a \<open>RangeError\<close> when the byte length is odd.\<close>

definition uint8_view :: "int16 list \<Rightarrow> uint8 list" where
  "uint8_view ws = concat (map (\<lambda>w. [ucast w, ucast (drop_bit 8 w)]) ws)"

fun pair_up :: "uint8 list \<Rightarrow> int16 list" where
  "pair_up (lo # hi # rest) = (ucast lo OR push_bit 8 (ucast hi)) # pair_up rest"
| "pair_up _ = []"

definition int16_view :: "uint8 list \<Rightarrow> exn + int16 list" where
  "int16_view bs = (if odd (length bs) then Inl RangeError else Inr (pair_up bs))"

subsection \<open>float32ToInt16, createAudioBlob\<close>

definition float32ToInt16 :: "real list \<Rightarrow> int16 list" where
  "float32ToInt16 float32Array =
     map (\<lambda>x. let s = max (- 1) (min 1 x)
              in toInt16 (if s < 0 then s * 32768 else s * 32767)) float32Array"

record blob =
  data :: string
  mimeType :: string

function string_of_nat :: "nat \<Rightarrow> string" where
  "string_of_nat n =
     (if n < 10 then [char_of (48 + n)]
      else string_of_nat (n div 10) @ [char_of (48 + n mod 10)])"
  by pat_completeness auto
termination
  by (relation "measure id") auto

definition createAudioBlob :: "int16 list \<Rightarrow> nat \<Rightarrow> blob" where
  "createAudioBlob int16Data sampleRate =
     (let uint8Array = uint8_view int16Data;
          base64 = btoa (map (\<lambda>byte. char_of (unat byte)) uint8Array)
      in \<lparr> data = base64, mimeType = ''audio/pcm;rate='' @ string_of_nat sampleRate \<rparr>)"

subsection \<open>decodeAudioData\<close>

text \<open>An \<open>AudioBuffer\<close>: \<open>frames\<close> is its \<open>length\<close> property, \<open>channelData\<close> holds one
  sample list per channel.\<close>

record audioBuffer =
  numberOfChannels :: nat
  frames :: nat
  sampleRate :: nat
  channelData :: "real list list"

definition duration :: "audioBuffer \<Rightarrow> real" where
  "duration b = real (frames b) / real (sampleRate b)"

text \<open>\<open>audioContext.createBuffer\<close>: a \<open>NotSupportedError\<close> unless there are 1 to 32
  channels and at least one frame. (The only rate passed is 24000, which every
  implementation supports.) The new buffer is silent.\<close>

definition createBuffer :: "nat \<Rightarrow> nat \<Rightarrow> nat \<Rightarrow> exn + audioBuffer" where
  "createBuffer numChannels frameCount rate =
     (if numChannels = 0 \<or> 32 < numChannels \<or> frameCount = 0 then Inl NotSupportedError
      else Inr \<lparr> numberOfChannels = numChannels, frames = frameCount, sampleRate = rate,
                 channelData = replicate numChannels (replicate frameCount 0) \<rparr>)"

text \<open>
  \<open>frameCount = dataInt16.length / numChannels\<close> is a Number; \<open>createBuffer\<close> cuts it
  to an integer, and the writes of the copy loop beyond the buffer's length are ignored,
  so channel \<open>c\<close> receives the samples \<open>c, c + numChannels, ...\<close> of the first
  \<open>length div numChannels\<close> frames.
\<close>

definition decodeAudioData :: "string \<Rightarrow> nat \<Rightarrow> nat \<Rightarrow> exn + audioBuffer" where
  "decodeAudioData base64String rate numChannels =
     (case atob base64String of
        Inl e \<Rightarrow> Inl e
      | Inr binaryString \<Rightarrow>
          (let bytes = map (\<lambda>c. (word_of_nat (of_char c) :: uint8)) binaryString
           in case int16_view bytes of
                Inl e \<Rightarrow> Inl e
              | Inr dataInt16 \<Rightarrow>
                  (let frameCount = length dataInt16 div numChannels
                   in case createBuffer numChannels frameCount rate of
                        Inl e \<Rightarrow> Inl e
                      | Inr buffer \<Rightarrow>
                          Inr (buffer \<lparr> channelData :=
                                 map (\<lambda>channel.
                                        map (\<lambda>i. real_of_int (sint (dataInt16 ! (i * numChannels + channel))) / 32768)
                                            [0 ..< frameCount])
                                     [0 ..< numChannels] \<rparr>))))"

section \<open>Audio manager (src/utils/audioManager.ts)\<close>

text \<open>
  A started \<open>AudioBufferSourceNode\<close>: its buffer and the time passed to \<open>start\<close>.
  \<open>nodeId\<close> stands for the object's identity (the live set is a \<open>Set\<close> of objects).
\<close>

record audioSource =
  nodeId :: nat
  buffer :: audioBuffer
  startTime :: real

text \<open>
  The fields of the class. \<open>audioContext\<close> and \<open>outputAnalyser\<close> are nullable in the
  source (\<open>None\<close>/\<open>False\<close> is \<open>null\<close>); \<open>stream\<close> and \<open>processor\<close> record whether the
  microphone stream and the block callback are held. \<open>created\<close> counts the nodes made so
  far and supplies the next \<open>nodeId\<close>.
\<close>

record audioManager =
  audioContext :: "nat option"
  stream :: bool
  processor :: bool
  outputAnalyser :: bool
  audioSources :: "audioSource list"
  nextStartTime :: real
  isClosed :: bool
  created :: nat

definition new_AudioManager :: "nat \<Rightarrow> audioManager" where
  "new_AudioManager rate =
     \<lparr> audioContext = Some rate, stream = False, processor = False, outputAnalyser = True,
       audioSources = [], nextStartTime = 0, isClosed = False, created = 0 \<rparr>"

subsection \<open>Numbers of the block callback\<close>

text \<open>
  The Numbers of the source are IEEE 754 binary64 values, and every arithmetic operation
  returns the exact result rounded to the nearest such value, ties going to the one
  with an even significand. \<open>round_even\<close> is that rounding to an integer.
\<close>

definition round_even :: "real \<Rightarrow> int" where
  "round_even x =
     (let f = \<lfloor>x\<rfloor>; r = x - of_int f
      in if r < 1 / 2 then f else if 1 / 2 < r then f + 1 else if even f then f else f + 1)"

text \<open>
  The exponent of the unit in the last place of the binary64 values around \<open>x\<close>: the
  significand has 53 bits, so it is 52 below the exponent of \<open>x\<close>, and the exponent of
  a subnormal \<open>x\<close> is the least normal one, \<open>-1022\<close>.
\<close>

definition ulp_exponent :: "real \<Rightarrow> int" where
  "ulp_exponent x = max \<lfloor>log 2 \<bar>x\<bar>\<rfloor> (- 1022) - 52"

text \<open>
  \<open>fl x\<close> is the binary64 value nearest to \<open>x\<close>. An exact result beyond the largest
  finite value would round to an infinity; that does not arise below: a sensitivity is
  a finite Number, the samples of a block are 32-bit floats and a block has 4096 of
  them, so every intermediate result is far below \<open>2 ^ 1024\<close>.
\<close>

definition fl :: "real \<Rightarrow> real" where
  "fl x =
     (if x = 0 then 0
      else sgn x * (of_int (round_even (\<bar>x\<bar> / power_int 2 (ulp_exponent x)))
                    * power_int 2 (ulp_exponent x)))"

subsection \<open>The block callback installed by initializeInput\<close>

text \<open>
  \<open>0.001 + (1 - sensitivity) * 0.05\<close>: the two literals are the binary64 values nearest
  to the decimals, and the subtraction, the product and the sum are each rounded.
\<close>

definition threshold :: "real \<Rightarrow> real" where
  "threshold sensitivity = fl (fl 0.001 + fl (fl (1 - sensitivity) * fl 0.05))"

text \<open>
  A Number that may be \<open>NaN\<close> (\<open>None\<close>), and \<open>>\<close> on it: a comparison with \<open>NaN\<close> is
  false.
\<close>

definition js_gt :: "real option \<Rightarrow> real \<Rightarrow> bool" where
  "js_gt a b = (case a of None \<Rightarrow> False | Some x \<Rightarrow> x > b)"

text \<open>\<open>rms\<close> of the callback: the loop adds the squares from the left, starting at 0,
  rounding each square and each partial sum; the quotient by the block length and the
  square root (\<open>Math.sqrt\<close>, correctly rounded) are rounded too. A sample is a 32-bit
  float, read as the Number of the same value. (\<open>calculateRMS\<close> of audioUtils.ts is the
  same loop; the callback has its own copy.) On an empty block the source divides 0 by
  0 and \<open>rms\<close> is \<open>NaN\<close>.\<close>

definition block_rms :: "real list \<Rightarrow> real option" where
  "block_rms inputData =
     (if inputData = [] then None
      else Some (fl (sqrt (fl (foldl (\<lambda>sum x. fl (sum + fl (x * x))) 0 inputData
                                / real (length inputData))))))"

text \<open>\<open>onaudioprocess\<close>: the result is the blob handed to \<open>onAudioData\<close>, \<open>None\<close> when the
  callback produces nothing.\<close>

definition onaudioprocess :: "audioManager \<Rightarrow> real \<Rightarrow> real list \<Rightarrow> blob option" where
  "onaudioprocess m sensitivity inputData =
     (if isClosed m then None
      else if js_gt (block_rms inputData) (threshold sensitivity)
           then Some (createAudioBlob (float32ToInt16 inputData) 16000)
           else None)"

subsection \<open>playAudioChunk, close\<close>

datatype playOutcome =
    Ignored
  | Dropped exn
  | Scheduled audioSource

text \<open>\<open>now\<close> is \<open>audioContext.currentTime\<close> read after the decode. A decode error is
  caught and logged; the state is then as before.\<close>

definition playAudioChunk :: "audioManager \<Rightarrow> real \<Rightarrow> string \<Rightarrow> audioManager \<times> playOutcome" where
  "playAudioChunk m now base64Audio =
     (if audioContext m = None \<or> \<not> outputAnalyser m then (m, Ignored)
      else case decodeAudioData base64Audio 24000 1 of
             Inl error \<Rightarrow> (m, Dropped error)
           | Inr audioBuffer \<Rightarrow>
               (let start = max now (nextStartTime m);
                    source = \<lparr> nodeId = created m, buffer = audioBuffer, startTime = start \<rparr>
                in (m \<lparr> nextStartTime := start + duration audioBuffer,
                        audioSources := audioSources m @ [source],
                        created := Suc (created m) \<rparr>,
                    Scheduled source)))"

text \<open>\<open>source.onended\<close>: the node leaves the live set.\<close>

definition onended :: "audioManager \<Rightarrow> audioSource \<Rightarrow> audioManager" where
  "onended m source =
     m \<lparr> audioSources := filter (\<lambda>s. nodeId s \<noteq> nodeId source) (audioSources m) \<rparr>"

text \<open>\<open>close\<close> stops every live node; the context and the analyser stay.\<close>

definition close :: "audioManager \<Rightarrow> audioManager" where
  "close m =
     m \<lparr> isClosed := True, processor := False, stream := False,
         audioSources := [], nextStartTime := 0 \<rparr>"

text \<open>A sequence of enqueues: each is given the clock reading at its turn. The result
  lists the state and outcome after each chunk.\<close>

fun enqueue_all :: "audioManager \<Rightarrow> (real \<times> string) list \<Rightarrow> (audioManager \<times> playOutcome) list" where
  "enqueue_all m [] = []"
| "enqueue_all m ((now, chunk) # rest) =
     (let r = playAudioChunk m now chunk in r # enqueue_all (fst r) rest)"




section \<open>Tool dispatcher (src/utils/tools.ts)\<close>

subsection \<open>Data\<close>

datatype mediaType = Image | Video | Search | Map

text \<open>\<open>MediaItem\<close> of types.ts. \<open>item_metadata\<close> is the opaque \<open>groundingChunks\<close> value.\<close>

record mediaItem =
  item_id :: string
  item_type :: mediaType
  item_url :: "string option"
  item_content :: "string option"
  item_title :: "string option"
  item_metadata :: "string option"
  item_timestamp :: string

text \<open>\<open>ActiveFile\<close> of types.ts.\<close>

record activeFile =
  file_name :: string
  file_content :: string
  file_type :: string
  file_size :: nat

text \<open>
  The \<open>args\<close> object of a call, with the properties the dispatcher reads; \<open>None\<close> is
  \<open>undefined\<close>. The object itself may be missing: the dispatcher then receives
  \<open>undefined\<close> and a property read throws a \<open>TypeError\<close>.
\<close>

record toolArgs =
  arg_url :: "string option"
  arg_query :: "string option"
  arg_prompt :: "string option"
  arg_aspectRatio :: "string option"

text \<open>What the dispatcher returns or the orchestrator sends: \<open>{result: ...}\<close> (the value
  is \<open>undefined\<close> when the remote response has no text) or \<open>{error: ...}\<close>.\<close>

datatype toolResponse =
    Result "string option"
  | ErrorResponse string

subsection \<open>The remote services and the browser, as seen by one call\<close>

datatype genConfig =
    ThinkingConfig nat
  | GoogleSearch
  | GoogleMaps "(real \<times> real) option"
  | ImageConfig string string

record genRequest =
  req_model :: string
  req_contents :: "string option"
  req_config :: genConfig

text \<open>Of a \<open>generateContent\<close> response: \<open>response.text\<close>, the grounding chunks of the
  first candidate, and for each part of the first candidate its \<open>inlineData.data\<close>
  when it has inline data.\<close>

record genResponse =
  resp_text :: "string option"
  resp_groundingChunks :: "string option"
  resp_parts :: "string option list"

text \<open>Of a video operation: \<open>done\<close> and
  \<open>response?.generatedVideos?.[0]?.video?.uri\<close>.\<close>

record operation =
  op_done :: bool
  op_videoUri :: "string option"

text \<open>
  Everything a call reads from outside: the clock string, the random id, the outcome of
  each remote request (\<open>Inl\<close> is a rejected promise), the location (\<open>None\<close> when
  geolocation is missing, denied or times out), the outcome of the \<open>k\<close>-th status request
  of a video operation, and the object URL made from a fetched asset.
\<close>

record toolEnv =
  localeTime :: string
  randomId :: string
  generateContent :: "genRequest \<Rightarrow> exn + genResponse"
  getUserLocation :: "(real \<times> real) option"
  generateVideos :: "string option \<Rightarrow> exn + operation"
  getVideosOperation :: "nat \<Rightarrow> exn + operation"
  fetchObjectURL :: "string \<Rightarrow> exn + string"

text \<open>What a call does to the outside, in order.\<close>

datatype toolEffect =
    WindowOpen string
  | ContentRequested genRequest
  | LocationRequested
  | VideosRequested "string option"
  | Sleep nat
  | OperationRequested nat
  | Fetched string
  | MediaGenerated mediaItem
  | ConsoleError exn

subsection \<open>executeTool\<close>

text \<open>A template literal prints \<open>undefined\<close> as the word.\<close>

definition str :: "string option \<Rightarrow> string" where
  "str v = (case v of None \<Rightarrow> ''undefined'' | Some s \<Rightarrow> s)"

text \<open>Truthiness of a string-or-undefined value.\<close>

definition truthy :: "string option \<Rightarrow> bool" where
  "truthy v = (case v of None \<Rightarrow> False | Some s \<Rightarrow> s \<noteq> [])"

text \<open>Reading a property of \<open>args\<close>; of \<open>undefined\<close> it throws.\<close>

definition read_prop :: "toolArgs option \<Rightarrow> (toolArgs \<Rightarrow> string option) \<Rightarrow> exn + string option" where
  "read_prop args field =
     (case args of
        None \<Rightarrow> Inl (TypeError ''Cannot read properties of undefined'')
      | Some a \<Rightarrow> Inr (field a))"

text \<open>
  The polling loop of \<open>generate_video\<close>. It has no bound in the source, so it is a
  partial function: \<open>None\<close> is a loop that never ends. \<open>k\<close> counts the status requests
  made so far; the result is their final number and the finished operation, or the
  error of the request that failed.
\<close>

partial_function (option) poll ::
  "(nat \<Rightarrow> exn + operation) \<Rightarrow> nat \<Rightarrow> operation \<Rightarrow> (nat \<times> (exn + operation)) option" where
  "poll getOp k operation =
     (if op_done operation then Some (k, Inr operation)
      else case getOp k of
             Inl e \<Rightarrow> Some (Suc k, Inl e)
           | Inr operation' \<Rightarrow> poll getOp (Suc k) operation')"

text \<open>The effects of \<open>n\<close> rounds of the loop: a 3 second sleep, then the request.\<close>

definition poll_effects :: "nat \<Rightarrow> toolEffect list" where
  "poll_effects n = concat (map (\<lambda>k. [Sleep 3000, OperationRequested k]) [0 ..< n])"

text \<open>
  The cases of the \<open>switch\<close>, one definition each: the effects so far and the returned
  object, or the thrown error (\<open>Inl\<close>); \<open>None\<close> when the case never returns.
\<close>

type_synonym toolOutcome = "(toolEffect list \<times> (exn + toolResponse)) option"

definition open_website :: "toolArgs option \<Rightarrow> toolOutcome" where
  "open_website args =
     (case read_prop args arg_url of
        Inl e \<Rightarrow> Some ([], Inl e)
      | Inr None \<Rightarrow> Some ([], Inl (TypeError ''Cannot read properties of undefined''))
      | Inr (Some u) \<Rightarrow>
          (let url = (if take 4 u = ''http'' then u else ''https://'' @ u)
           in Some ([WindowOpen url], Inr (Result (Some (''Opened website: '' @ url))))))"

definition get_current_time :: "toolEnv \<Rightarrow> toolOutcome" where
  "get_current_time env = Some ([], Inr (Result (Some (''Current time: '' @ localeTime env))))"

definition read_active_file :: "activeFile option \<Rightarrow> toolOutcome" where
  "read_active_file activeFile =
     (case activeFile of
        None \<Rightarrow> Some ([], Inr (Result (Some ''No file is currently uploaded.'')))
      | Some f \<Rightarrow>
          (let content = (if length (file_content f) > 50000
                          then take 50000 (file_content f) @ ''... [TRUNCATED]''
                          else file_content f)
           in Some ([], Inr (Result (Some (''File Name: '' @ file_name f @ [CHR 0x0A]
                                           @ ''Content:'' @ [CHR 0x0A] @ content))))))"

definition consult_logic_core :: "toolEnv \<Rightarrow> toolArgs option \<Rightarrow> toolOutcome" where
  "consult_logic_core env args =
     (case read_prop args arg_query of
        Inl e \<Rightarrow> Some ([], Inl e)
      | Inr query \<Rightarrow>
          (let request = \<lparr> req_model = ''gemini-3-pro-preview'', req_contents = query,
                           req_config = ThinkingConfig 16000 \<rparr>
           in case generateContent env request of
                Inl e \<Rightarrow> Some ([ContentRequested request], Inl e)
              | Inr response \<Rightarrow>
                  Some ([ContentRequested request], Inr (Result (resp_text response)))))"

definition search_web :: "toolEnv \<Rightarrow> toolArgs option \<Rightarrow> toolOutcome" where
  "search_web env args =
     (case read_prop args arg_query of
        Inl e \<Rightarrow> Some ([], Inl e)
      | Inr query \<Rightarrow>
          (let request = \<lparr> req_model = ''gemini-2.5-flash'', req_contents = query,
                           req_config = GoogleSearch \<rparr>
           in case generateContent env request of
                Inl e \<Rightarrow> Some ([ContentRequested request], Inl e)
              | Inr response \<Rightarrow>
                  (let chunks = resp_groundingChunks response;
                       text = resp_text response
                   in Some ([ContentRequested request,
                             MediaGenerated \<lparr> item_id = randomId env, item_type = Search,
                               item_url = None, item_content = text, item_title = None,
                               item_metadata = chunks, item_timestamp = localeTime env \<rparr>],
                            Inr (Result (Some
                              (''Search complete. I have displayed the results: '' @ str text)))))))"

definition find_places :: "toolEnv \<Rightarrow> toolArgs option \<Rightarrow> toolOutcome" where
  "find_places env args =
     (let location = getUserLocation env
      in case read_prop args arg_query of
           Inl e \<Rightarrow> Some ([LocationRequested], Inl e)
         | Inr query \<Rightarrow>
             (let request = \<lparr> req_model = ''gemini-2.5-flash'', req_contents = query,
                              req_config = GoogleMaps location \<rparr>
              in case generateContent env request of
                   Inl e \<Rightarrow> Some ([LocationRequested, ContentRequested request], Inl e)
                 | Inr response \<Rightarrow>
                     Some ([LocationRequested, ContentRequested request,
                            MediaGenerated \<lparr> item_id = randomId env, item_type = Map,
                              item_url = None, item_content = resp_text response,
                              item_title = None,
                              item_metadata = resp_groundingChunks response,
                              item_timestamp = localeTime env \<rparr>],
                           Inr (Result (Some
                             ''I found some places. details are on the display.'')))))"

definition generate_image :: "toolEnv \<Rightarrow> toolArgs option \<Rightarrow> toolOutcome" where
  "generate_image env args =
     (case args of
        None \<Rightarrow> Some ([], Inl (TypeError ''Cannot read properties of undefined''))
      | Some a \<Rightarrow>
          (let prompt = arg_prompt a;
               ratio = (if truthy (arg_aspectRatio a) then str (arg_aspectRatio a)
                        else ''16:9'');
               request = \<lparr> req_model = ''gemini-3-pro-image-preview'', req_contents = prompt,
                           req_config = ImageConfig ratio ''1K'' \<rparr>
           in case generateContent env request of
                Inl e \<Rightarrow> Some ([ContentRequested request], Inl e)
              | Inr response \<Rightarrow>
                  (case List.find (\<lambda>p. p \<noteq> None) (resp_parts response) of
                     Some (Some d) \<Rightarrow>
                       Some ([ContentRequested request,
                              MediaGenerated \<lparr> item_id = randomId env, item_type = Image,
                                item_url = Some (''data:image/png;base64,'' @ d),
                                item_content = None, item_title = prompt,
                                item_metadata = None, item_timestamp = localeTime env \<rparr>],
                             Inr (Result (Some ''Image generated and displayed on screen.'')))
                   | _ \<Rightarrow>
                       Some ([ContentRequested request],
                             Inr (Result (Some ''Failed to generate image.''))))))"

text \<open>\<open>generate_video\<close> after the loop: the asset is fetched and shown.\<close>

definition video_finished ::
  "toolEnv \<Rightarrow> string option \<Rightarrow> string \<Rightarrow> toolEffect list \<Rightarrow> operation \<Rightarrow> toolOutcome" where
  "video_finished env prompt apiKey before operation =
     (let videoUri = op_videoUri operation
      in if truthy videoUri then
           (let address = str videoUri @ ''&key='' @ apiKey
            in case fetchObjectURL env address of
                 Inl e \<Rightarrow> Some (before @ [Fetched address], Inl e)
               | Inr url \<Rightarrow>
                   Some (before
                         @ [Fetched address,
                            MediaGenerated \<lparr> item_id = randomId env,
                              item_type = Video, item_url = Some url,
                              item_content = None, item_title = prompt,
                              item_metadata = None,
                              item_timestamp = localeTime env \<rparr>],
                         Inr (Result (Some ''Video generated and ready to play.''))))
         else Some (before, Inr (Result (Some ''Video generation failed.''))))"

definition generate_video :: "toolEnv \<Rightarrow> toolArgs option \<Rightarrow> string \<Rightarrow> toolOutcome" where
  "generate_video env args apiKey =
     (case read_prop args arg_prompt of
        Inl e \<Rightarrow> Some ([], Inl e)
      | Inr prompt \<Rightarrow>
          (case generateVideos env prompt of
             Inl e \<Rightarrow> Some ([VideosRequested prompt], Inl e)
           | Inr operation0 \<Rightarrow>
               (case poll (getVideosOperation env) 0 operation0 of
                  None \<Rightarrow> None
                | Some (n, Inl e) \<Rightarrow> Some (VideosRequested prompt # poll_effects n, Inl e)
                | Some (n, Inr operation) \<Rightarrow>
                    video_finished env prompt apiKey
                      (VideosRequested prompt # poll_effects n) operation)))"

text \<open>The \<open>switch\<close> inside the \<open>try\<close>.\<close>

definition tool_body ::
  "toolEnv \<Rightarrow> string \<Rightarrow> toolArgs option \<Rightarrow> string \<Rightarrow> activeFile option \<Rightarrow> toolOutcome" where
  "tool_body env name args apiKey activeFile =
    (if name = ''open_website'' then open_website args
     else if name = ''get_current_time'' then get_current_time env
     else if name = ''read_active_file'' then read_active_file activeFile
     else if name = ''consult_logic_core'' then consult_logic_core env args
     else if name = ''search_web'' then search_web env args
     else if name = ''find_places'' then find_places env args
     else if name = ''generate_image'' then generate_image env args
     else if name = ''generate_video'' then generate_video env args apiKey
     else Some ([], Inr (Result (Some ''Function not found''))))"

text \<open>
  \<open>executeTool\<close>: the body inside \<open>try\<close>/\<open>catch\<close>. The \<open>catch\<close> logs the error and
  returns a \<open>result\<close> object with its message. The outer \<open>Inl\<close> of the result type is a
  rejected promise, as the caller's own \<open>catch\<close> expects. (The client object is built
  before the \<open>try\<close>; with a key that is a string, as the signature demands, that
  constructor does not throw.)
\<close>

definition executeTool ::
  "toolEnv \<Rightarrow> string \<Rightarrow> toolArgs option \<Rightarrow> string \<Rightarrow> activeFile option \<Rightarrow> toolOutcome" where
  "executeTool env name args apiKey activeFile =
     (case tool_body env name args apiKey activeFile of
        None \<Rightarrow> None
      | Some (effects, Inr response) \<Rightarrow> Some (effects, Inr response)
      | Some (effects, Inl e) \<Rightarrow>
          Some (effects @ [ConsoleError e],
                Inr (Result (Some (''Error executing tool: '' @ message e)))))"

text \<open>The status requests and the media items among the effects of a call.\<close>

fun status_checks :: "toolEffect list \<Rightarrow> nat list" where
  "status_checks [] = []"
| "status_checks (OperationRequested k # rest) = k # status_checks rest"
| "status_checks (_ # rest) = status_checks rest"

fun media_items :: "toolEffect list \<Rightarrow> mediaItem list" where
  "media_items [] = []"
| "media_items (MediaGenerated item # rest) = item # media_items rest"
| "media_items (_ # rest) = media_items rest"

section \<open>Session orchestrator (the App component)\<close>

subsection \<open>Data\<close>

datatype connectionState = DISCONNECTED | CONNECTING | CONNECTED | ERROR

datatype logSource = USER | JARVIS | SYSTEM

datatype logType = Info | ErrorLog | Success | Command

text \<open>A tool call of an inbound message.\<close>

record functionCall =
  fc_id :: string
  fc_name :: string
  fc_args :: "toolArgs option"

text \<open>
  An inbound message. \<open>toolCall\<close> is \<open>None\<close> when the message has none and \<open>Some None\<close>
  when it has one without \<open>functionCalls\<close>. \<open>modelTurnParts\<close> is
  \<open>serverContent?.modelTurn?.parts\<close>; of a part, \<open>part_inlineData\<close> is
  \<open>inlineData?.data\<close> and \<open>part_text\<close> is \<open>text\<close>.
\<close>

record part =
  part_inlineData :: "string option"
  part_text :: "string option"

record liveServerMessage =
  toolCall :: "functionCall list option option"
  modelTurnParts :: "part list option"

record settings =
  voiceName :: string
  wakeWordSensitivity :: real

text \<open>
  The component's state and refs. \<open>sessionRef\<close> says whether a session handle is held.
  The log and the media list only grow; they are the \<open>AddLog\<close> and \<open>AppendMediaItem\<close>
  events below (ids and timestamps of log entries are left out).
\<close>

record app =
  connectionState :: connectionState
  isMicActive :: bool
  isAwake :: bool
  audioManagerRef :: "audioManager option"
  sessionRef :: bool
  activeFileRef :: "activeFile option"
  settings :: settings

text \<open>What the component reads from outside: \<open>process.env.API_KEY\<close>, the outcome of
  \<open>ai.live.connect\<close> and of \<open>getUserMedia\<close>, and the world of the tools.\<close>

record appEnv =
  API_KEY :: "string option"
  liveConnect :: "exn + unit"
  getUserMedia :: "exn + unit"
  toolWorld :: toolEnv

text \<open>What the component does, in order: state setters, log events, and calls out.\<close>

datatype appEvent =
    AddLog logSource string logType
  | SetConnectionState connectionState
  | SetIsMicActive bool
  | SetIsAwake bool
  | AppendMediaItem mediaItem
  | AudioManagerCreated
  | AudioManagerClosed
  | LiveConnectCalled
  | SessionClosed
  | MicrophoneRequested
  | SendRealtimeText string
  | SendToolResponse string string toolResponse
  | ToolCalled functionCall
  | ToolSettled functionCall
  | ToolDid toolEffect
  | PlayAudioChunkCalled string
  | ConsoleErrorLogged exn

definition MODEL_NAME :: string where
  "MODEL_NAME = ''gemini-2.5-flash-native-audio-preview-09-2025''"

subsection \<open>handleMediaGenerated, disconnect, connect\<close>

fun upper_type :: "mediaType \<Rightarrow> string" where
  "upper_type Image = ''IMAGE''"
| "upper_type Video = ''VIDEO''"
| "upper_type Search = ''SEARCH''"
| "upper_type Map = ''MAP''"

definition handleMediaGenerated :: "mediaItem \<Rightarrow> appEvent list" where
  "handleMediaGenerated item =
     [AppendMediaItem item,
      AddLog SYSTEM (''New Media Generated: '' @ upper_type (item_type item)) Success]"

definition disconnect :: "app \<Rightarrow> app \<times> appEvent list" where
  "disconnect st =
     (st \<lparr> sessionRef := False, audioManagerRef := None,
            connectionState := DISCONNECTED, isMicActive := False, isAwake := False \<rparr>,
      (if sessionRef st then [SessionClosed] else [])
      @ (if audioManagerRef st \<noteq> None then [AudioManagerClosed] else [])
      @ [SetConnectionState DISCONNECTED, SetIsMicActive False, SetIsAwake False,
         AddLog SYSTEM ''Disconnected.'' Info])"

text \<open>The \<open>catch\<close> of \<open>connect\<close>.\<close>

definition connect_failed :: "app \<Rightarrow> exn \<Rightarrow> app \<times> appEvent list" where
  "connect_failed st error =
     (let (st', events) = disconnect (st \<lparr> connectionState := ERROR \<rparr>)
      in (st', [ConsoleErrorLogged error,
                AddLog SYSTEM (''Initialization Failed: '' @ message error) ErrorLog,
                SetConnectionState ERROR] @ events))"

text \<open>
  \<open>connect\<close>. The third component is the key under which the callbacks were handed to
  \<open>ai.live.connect\<close>, \<open>None\<close> when that call was not reached.
\<close>

definition connect :: "appEnv \<Rightarrow> app \<Rightarrow> app \<times> appEvent list \<times> string option" where
  "connect env st =
     (let wake = (if \<not> isAwake st
                  then [AddLog SYSTEM (''Awaiting Wake Word: '' @ [CHR 0x22] @ ''JARVIS''
                                        @ [CHR 0x22] @ '' or '' @ [CHR 0x22] @ ''BESA''
                                        @ [CHR 0x22]) Info,
                        SetIsAwake True]
                  else []);
          st1 = st \<lparr> isAwake := True, connectionState := CONNECTING,
                     audioManagerRef := Some (new_AudioManager 24000) \<rparr>;
          begin = wake @ [SetConnectionState CONNECTING,
                          AddLog SYSTEM ''Initializing BESA core systems...'' Info,
                          AudioManagerCreated]
      in if \<not> truthy (API_KEY env) then
           (let (st', events) = connect_failed st1 (Error ''API_KEY not found.'')
            in (st', begin @ events, None))
         else
           (let call = [AddLog SYSTEM (''Connecting to '' @ MODEL_NAME @ ''...'') Info,
                        LiveConnectCalled]
            in case liveConnect env of
                 Inl error \<Rightarrow>
                   (let (st', events) = connect_failed st1 error
                    in (st', begin @ call @ events, API_KEY env))
               | Inr session \<Rightarrow>
                   (st1 \<lparr> sessionRef := True \<rparr>, begin @ call, API_KEY env)))"

subsection \<open>The callbacks\<close>

text \<open>\<open>onopen\<close>. \<open>initializeInput\<close> returns at once without a context; otherwise it
  asks for the microphone, and when that is refused \<open>onopen\<close> ends there.\<close>

definition onopen :: "appEnv \<Rightarrow> app \<Rightarrow> app \<times> appEvent list" where
  "onopen env st =
     (let st1 = st \<lparr> connectionState := CONNECTED, isMicActive := True \<rparr>;
          opened = [AddLog SYSTEM (''Link Established. Voice: '' @ voiceName (settings st)) Success,
                    SetConnectionState CONNECTED, SetIsMicActive True];
          context = (case activeFileRef st of
                       None \<Rightarrow> []
                     | Some f \<Rightarrow>
                         [SendRealtimeText (''System Notification: User uploaded file ''
                            @ [CHR 0x27] @ file_name f @ [CHR 0x27] @ ''.'')])
      in case audioManagerRef st of
           None \<Rightarrow> (st1, opened @ context)
         | Some m \<Rightarrow>
             (if audioContext m = None then (st1, opened @ context)
              else (case getUserMedia env of
                      Inl error \<Rightarrow> (st1, opened @ [MicrophoneRequested])
                    | Inr media \<Rightarrow>
                        (st1 \<lparr> audioManagerRef :=
                                 Some (m \<lparr> stream := True, processor := True \<rparr>) \<rparr>,
                         opened @ [MicrophoneRequested] @ context))))"

text \<open>The effects of a tool as seen from the component: a generated item goes through
  \<open>handleMediaGenerated\<close>.\<close>

fun tool_events :: "toolEffect list \<Rightarrow> appEvent list" where
  "tool_events [] = []"
| "tool_events (MediaGenerated item # rest) =
     ToolDid (MediaGenerated item) # handleMediaGenerated item @ tool_events rest"
| "tool_events (e # rest) = ToolDid e # tool_events rest"

text \<open>
  The \<open>for\<close> loop of \<open>onmessage\<close> over the calls of a message. Each call is awaited
  before the loop goes on. The flag says whether the loop came to its end: it does not
  when a call never settles.
\<close>

fun dispatch_calls ::
  "toolEnv \<Rightarrow> string \<Rightarrow> activeFile option \<Rightarrow> functionCall list \<Rightarrow> appEvent list \<times> bool" where
  "dispatch_calls env apiKey file [] = ([], True)"
| "dispatch_calls env apiKey file (fc # rest) =
     (let activating = [AddLog JARVIS (''Activating Tool: '' @ fc_name fc) Command, ToolCalled fc]
      in case executeTool env (fc_name fc) (fc_args fc) apiKey file of
           None \<Rightarrow> (activating, False)
         | Some (effects, Inr result) \<Rightarrow>
             (let (events, finished) = dispatch_calls env apiKey file rest
              in (activating @ tool_events effects
                  @ [ToolSettled fc, SendToolResponse (fc_id fc) (fc_name fc) result]
                  @ events, finished))
         | Some (effects, Inl error) \<Rightarrow>
             (let (events, finished) = dispatch_calls env apiKey file rest
              in (activating @ tool_events effects
                  @ [ToolSettled fc,
                     AddLog SYSTEM (''Tool Error: '' @ message error) ErrorLog,
                     SendToolResponse (fc_id fc) (fc_name fc) (ErrorResponse (message error))]
                  @ events, finished)))"

text \<open>\<open>parts?.[0]\<close>.\<close>

definition first_part :: "liveServerMessage \<Rightarrow> part option" where
  "first_part msg =
     (case modelTurnParts msg of
        None \<Rightarrow> None
      | Some [] \<Rightarrow> None
      | Some (p # ps) \<Rightarrow> Some p)"

text \<open>
  \<open>onmessage\<close>. \<open>now\<close> is the clock reading when the enqueued chunk is scheduled. After
  the tool loop, the audio payload and the text of the first part are handled; when the
  loop does not end, or fails on a \<open>toolCall\<close> without \<open>functionCalls\<close>, they are not.
\<close>

definition onmessage ::
  "appEnv \<Rightarrow> string \<Rightarrow> app \<Rightarrow> real \<Rightarrow> liveServerMessage \<Rightarrow> app \<times> appEvent list" where
  "onmessage env apiKey st now msg =
     (let (tools, finished) =
            (case toolCall msg of
               None \<Rightarrow> ([], True)
             | Some None \<Rightarrow> ([], False)
             | Some (Some functionCalls) \<Rightarrow>
                 dispatch_calls (toolWorld env) apiKey (activeFileRef st) functionCalls)
      in if \<not> finished then (st, tools)
         else
           (let audio = (case first_part msg of
                           None \<Rightarrow> None
                         | Some p \<Rightarrow> if truthy (part_inlineData p) then part_inlineData p else None);
                text = (case first_part msg of
                          None \<Rightarrow> None
                        | Some p \<Rightarrow> if truthy (part_text p) then part_text p else None);
                (st', played) =
                  (case audio of
                     None \<Rightarrow> (st, [])
                   | Some audioData \<Rightarrow>
                       (case audioManagerRef st of
                          None \<Rightarrow> (st, [])
                        | Some m \<Rightarrow>
                            (st \<lparr> audioManagerRef := Some (fst (playAudioChunk m now audioData)) \<rparr>,
                             [PlayAudioChunkCalled audioData])));
                logged = (case text of None \<Rightarrow> [] | Some t \<Rightarrow> [AddLog JARVIS t Info])
            in (st', tools @ played @ logged)))"

definition onclose :: "app \<Rightarrow> app \<times> appEvent list" where
  "onclose st =
     (let (st', events) = disconnect st
      in (st', AddLog SYSTEM ''Link severed.'' ErrorLog # events))"

definition onerror :: "app \<Rightarrow> exn \<Rightarrow> app \<times> appEvent list" where
  "onerror st err = (st, [AddLog SYSTEM (''Protocol Error: '' @ message err) ErrorLog])"

subsection \<open>One connection attempt\<close>

datatype remoteEvent =
    RemoteOpen
  | RemoteMessage real liveServerMessage
  | RemoteClose
  | RemoteError exn

fun deliver :: "appEnv \<Rightarrow> string \<Rightarrow> app \<Rightarrow> remoteEvent \<Rightarrow> app \<times> appEvent list" where
  "deliver env apiKey st RemoteOpen = onopen env st"
| "deliver env apiKey st (RemoteMessage now msg) = onmessage env apiKey st now msg"
| "deliver env apiKey st RemoteClose = onclose st"
| "deliver env apiKey st (RemoteError err) = onerror st err"

fun deliver_all :: "appEnv \<Rightarrow> string \<Rightarrow> app \<Rightarrow> remoteEvent list \<Rightarrow> app \<times> appEvent list" where
  "deliver_all env apiKey st [] = (st, [])"
| "deliver_all env apiKey st (r # rest) =
     (let (st1, events1) = deliver env apiKey st r;
          (st2, events2) = deliver_all env apiKey st1 rest
      in (st2, events1 @ events2))"

text \<open>
  A connection attempt: \<open>connect\<close>, then whatever the remote side makes the callbacks
  do. The callbacks exist only once \<open>ai.live.connect\<close> has been called with them.
\<close>

definition session_attempt :: "appEnv \<Rightarrow> app \<Rightarrow> remoteEvent list \<Rightarrow> app \<times> appEvent list" where
  "session_attempt env st remote =
     (case connect env st of
        (st1, events1, None) \<Rightarrow> (st1, events1)
      | (st1, events1, Some apiKey) \<Rightarrow>
          (let (st2, events2) = deliver_all env apiKey st1 remote
           in (st2, events1 @ events2)))"

text \<open>The connection states set, and the calls and responses, among the events.\<close>

fun states_set :: "appEvent list \<Rightarrow> connectionState list" where
  "states_set [] = []"
| "states_set (SetConnectionState c # rest) = c # states_set rest"
| "states_set (_ # rest) = states_set rest"

fun is_call_or_response :: "appEvent \<Rightarrow> bool" where
  "is_call_or_response (ToolCalled fc) = True"
| "is_call_or_response (SendToolResponse i n r) = True"
| "is_call_or_response _ = False"

fun is_settled :: "appEvent \<Rightarrow> bool" where
  "is_settled (ToolSettled fc) = True"
| "is_settled _ = False"

fun is_called :: "appEvent \<Rightarrow> bool" where
  "is_called (ToolCalled fc) = True"
| "is_called _ = False"

text \<open>The enqueues on the audio manager and the transcript entries among the events.\<close>

fun is_audio_or_transcript :: "appEvent \<Rightarrow> bool" where
  "is_audio_or_transcript (PlayAudioChunkCalled d) = True"
| "is_audio_or_transcript (AddLog JARVIS t Info) = True"
| "is_audio_or_transcript _ = False"

text \<open>
  The calls of a message are dispatched concurrently when every call is made before
  the handler waits for any of them: no call comes after a settled one.
\<close>

definition dispatched_concurrently :: "appEvent list \<Rightarrow> bool" where
  "dispatched_concurrently events =
     (\<not> list_ex is_called (dropWhile (\<lambda>e. \<not> is_settled e) events))"

subsection \<open>Worlds used to run the definitions\<close>

text \<open>A world without network: every remote request fails.\<close>

definition offline :: toolEnv where
  "offline =
     \<lparr> localeTime = ''10:00:00'', randomId = ''k3x9q'',
       generateContent = (\<lambda>request. Inl (Error ''Failed to fetch'')),
       getUserLocation = None,
       generateVideos = (\<lambda>prompt. Inl (Error ''Failed to fetch'')),
       getVideosOperation = (\<lambda>k. Inl (Error ''Failed to fetch'')),
       fetchObjectURL = (\<lambda>address. Inl (Error ''Failed to fetch'')) \<rparr>"

text \<open>A world in which a video operation is not done when created, not done at its
  first two status requests and done, with an asset, from the third.\<close>

definition video_ready_at_third :: toolEnv where
  "video_ready_at_third =
     offline \<lparr>
       generateVideos := (\<lambda>prompt. Inr \<lparr> op_done = False, op_videoUri = None \<rparr>),
       getVideosOperation := (\<lambda>k. if k < 2 then Inr \<lparr> op_done = False, op_videoUri = None \<rparr>
                                    else Inr \<lparr> op_done = True,
                                               op_videoUri = Some ''https://video.example/v1?alt=media'' \<rparr>),
       fetchObjectURL := (\<lambda>address. Inr ''blob:7f3a'') \<rparr>"

text \<open>The same world, except that the download of the asset fails.\<close>

definition video_fetch_fails :: toolEnv where
  "video_fetch_fails =
     video_ready_at_third \<lparr> fetchObjectURL := (\<lambda>address. Inl (Error ''Failed to fetch'')) \<rparr>"

text \<open>A world in which a video operation is never done.\<close>

definition video_never_ready :: toolEnv where
  "video_never_ready =
     offline \<lparr>
       generateVideos := (\<lambda>prompt. Inr \<lparr> op_done = False, op_videoUri = None \<rparr>),
       getVideosOperation := (\<lambda>k. Inr \<lparr> op_done = False, op_videoUri = None \<rparr>) \<rparr>"

text \<open>The component as first rendered (the \<open>useState\<close> and \<open>useRef\<close> defaults), and a
  world with no key configured.\<close>

definition initial_app :: app where
  "initial_app =
     \<lparr> connectionState = DISCONNECTED, isMicActive = False, isAwake = False,
       audioManagerRef = None, sessionRef = False, activeFileRef = None,
       settings = \<lparr> voiceName = ''Fenrir'', wakeWordSensitivity = 0.6 \<rparr> \<rparr>"

definition no_credential :: appEnv where
  "no_credential =
     \<lparr> API_KEY = None, liveConnect = Inr (), getUserMedia = Inr (), toolWorld = offline \<rparr>"

text \<open>Messages used to run the handler: two quick calls; a video call followed by a
  quick call; text in the first part and audio and text in the second.\<close>

definition time_call :: functionCall where
  "time_call = \<lparr> fc_id = ''1'', fc_name = ''get_current_time'', fc_args = None \<rparr>"

definition website_call :: functionCall where
  "website_call =
     \<lparr> fc_id = ''2'', fc_name = ''open_website'',
       fc_args = Some \<lparr> arg_url = Some ''example.com'', arg_query = None, arg_prompt = None,
                        arg_aspectRatio = None \<rparr> \<rparr>"

definition video_call :: functionCall where
  "video_call =
     \<lparr> fc_id = ''7'', fc_name = ''generate_video'',
       fc_args = Some \<lparr> arg_url = None, arg_query = None, arg_prompt = Some ''a red kite'',
                        arg_aspectRatio = None \<rparr> \<rparr>"

definition time_then_website :: liveServerMessage where
  "time_then_website =
     \<lparr> toolCall = Some (Some [time_call, website_call]), modelTurnParts = None \<rparr>"

definition video_then_time :: liveServerMessage where
  "video_then_time =
     \<lparr> toolCall = Some (Some [video_call, time_call]), modelTurnParts = None \<rparr>"

definition audio_in_second_part :: liveServerMessage where
  "audio_in_second_part =
     \<lparr> toolCall = None,
       modelTurnParts = Some [\<lparr> part_inlineData = None, part_text = Some ''Hello'' \<rparr>,
                              \<lparr> part_inlineData = Some ''AAA='', part_text = Some ''again'' \<rparr>] \<rparr>"

definition audio_in_first_part :: liveServerMessage where
  "audio_in_first_part =
     \<lparr> toolCall = None,
       modelTurnParts = Some [\<lparr> part_inlineData = Some ''AAA='', part_text = Some ''Hello'' \<rparr>] \<rparr>"

text \<open>The component while connected: an audio manager is held.\<close>

definition connected_app :: app where
  "connected_app =
     initial_app \<lparr> connectionState := CONNECTED, isMicActive := True, isAwake := True,
                   audioManagerRef := Some (new_AudioManager 24000), sessionRef := True \<rparr>"

definition with_key :: "toolEnv \<Rightarrow> appEnv" where
  "with_key world =
     \<lparr> API_KEY = Some ''KEY'', liveConnect = Inr (), getUserMedia = Inr (), toolWorld = world \<rparr>"

section \<open>Properties of the playback scheduler\<close>

subsection \<open>Evaluation of the codec on small payloads\<close>

lemma atob_two_bytes: "atob ''AAA='' = Inr [CHR 0x00, CHR 0x00]"
  by (simp add: atob_def strip_padding_def is_ascii_whitespace_def b64val_def b64chars_def
      char_of_def)

lemma atob_one_byte: "atob ''AA=='' = Inr [CHR 0x00]"
  by (simp add: atob_def strip_padding_def is_ascii_whitespace_def b64val_def b64chars_def
      char_of_def)

lemma decode_one_frame:
  "decodeAudioData ''AAA='' 24000 (Suc 0) =
     Inr \<lparr>numberOfChannels = Suc 0, frames = Suc 0, sampleRate = 24000, channelData = [[0]]\<rparr>"
  by (simp add: decodeAudioData_def atob_two_bytes int16_view_def createBuffer_def)

subsection \<open>One enqueue\<close>

lemma decode_odd:
  assumes "atob payload = Inr bytes" and "odd (length bytes)"
  shows "decodeAudioData payload rate nc = Inl RangeError"
  using assms by (simp add: decodeAudioData_def int16_view_def)

lemma decode_ok_positive:
  assumes "decodeAudioData chunk rate nc = Inr b" and "0 < rate"
  shows "0 < duration b"
  using assms
  by (auto simp: decodeAudioData_def createBuffer_def duration_def Let_def
           split: sum.splits if_splits)



subsection \<open>A sequence of enqueues\<close>











lemma length_enqueue_all [simp]: "length (enqueue_all m inputs) = length inputs"
  by (induction inputs arbitrary: m) (auto simp: Let_def)









text \<open>
  C7. When the base64 payload decodes to an odd number of bytes (the stride of a mono
  16-bit frame is two bytes), \<open>decodeAudioData\<close> fails with the \<open>RangeError\<close> of the
  \<open>Int16Array\<close> constructor, for every rate and channel count; \<open>playAudioChunk\<close> catches
  it and drops the chunk: the manager is unchanged (no node in the live set, none
  created, \<open>nextStartTime\<close> as before) and nothing is scheduled.
\<close>

theorem odd_payload_dropped:
  assumes "atob payload = Inr bytes" and "odd (length bytes)"
  shows "decodeAudioData payload rate numChannels = Inl RangeError
       \<and> fst (playAudioChunk m now payload) = m
       \<and> (\<forall>s. snd (playAudioChunk m now payload) \<noteq> Scheduled s)
       \<and> (audioContext m \<noteq> None \<and> outputAnalyser m \<longrightarrow>
            playAudioChunk m now payload = (m, Dropped RangeError))
       \<and> nextStartTime (fst (playAudioChunk m now payload)) = nextStartTime m
       \<and> audioSources (fst (playAudioChunk m now payload)) = audioSources m
       \<and> created (fst (playAudioChunk m now payload)) = created m"
proof -
  have d: "decodeAudioData payload rate numChannels = Inl RangeError" for rate numChannels
    using assms by (rule decode_odd)
  have p: "playAudioChunk m now payload =
             (m, if audioContext m = None \<or> \<not> outputAnalyser m then Ignored
                 else Dropped RangeError)"
    by (simp add: playAudioChunk_def d)
  show ?thesis using d p by simp
qed

theorem odd_payload_dropped_witness:
  "atob ''AA=='' = Inr [CHR 0x00] \<and> odd (length [CHR 0x00])
   \<and> decodeAudioData ''AA=='' 24000 1 = Inl RangeError
   \<and> playAudioChunk (new_AudioManager 24000) 5 ''AA=='' =
       (new_AudioManager 24000, Dropped RangeError)
   \<and> nextStartTime (fst (playAudioChunk (new_AudioManager 24000) 5 ''AA=='')) = 0"
proof -
  have len: "odd (length [CHR 0x00])" by simp
  have ctx: "audioContext (new_AudioManager 24000) \<noteq> None \<and> outputAnalyser (new_AudioManager 24000)"
    by (simp add: new_AudioManager_def)
  have z: "nextStartTime (new_AudioManager 24000) = 0"
    by (simp add: new_AudioManager_def)
  show ?thesis
    using odd_payload_dropped[OF atob_one_byte len, of 24000 1 "new_AudioManager 24000" 5]
      atob_one_byte len ctx z
    by simp
qed

text \<open>
  C10. \<open>playAudioChunk\<close> does not look at the closed flag. On a manager that has been
  closed (its context and analyser are still there), a chunk that decodes is scheduled
  like any other: a node is made and started at \<open>max now 0\<close>, it is the one member of the
  live set, and \<open>nextStartTime\<close> moves from its reset value 0 to that start plus the
  chunk's duration, which is positive. Only the capture callback tests the flag: on the
  closed manager it emits nothing, whatever the block.
\<close>

theorem enqueue_after_close_schedules:
  assumes "audioContext m \<noteq> None" and "outputAnalyser m"
    and "decodeAudioData chunk 24000 1 = Inr b"
  shows "isClosed (close m) \<and> nextStartTime (close m) = 0 \<and> audioSources (close m) = []
       \<and> playAudioChunk (close m) now chunk =
           ((close m) \<lparr> nextStartTime := max now 0 + duration b,
                        audioSources := [\<lparr> nodeId = created m, buffer = b, startTime = max now 0 \<rparr>],
                        created := Suc (created m) \<rparr>,
            Scheduled \<lparr> nodeId = created m, buffer = b, startTime = max now 0 \<rparr>)
       \<and> 0 < nextStartTime (fst (playAudioChunk (close m) now chunk))
       \<and> isClosed (fst (playAudioChunk (close m) now chunk))
       \<and> onaudioprocess (close m) sensitivity inputData = None"
proof -
  have pos: "0 < duration b" using decode_ok_positive[OF assms(3)] by simp
  have play: "playAudioChunk (close m) now chunk =
           ((close m) \<lparr> nextStartTime := max now 0 + duration b,
                        audioSources := [\<lparr> nodeId = created m, buffer = b, startTime = max now 0 \<rparr>],
                        created := Suc (created m) \<rparr>,
            Scheduled \<lparr> nodeId = created m, buffer = b, startTime = max now 0 \<rparr>)"
    using assms by (simp add: playAudioChunk_def close_def Let_def)
  have "0 < max now 0 + duration b" using pos by (simp add: max_def)
  then show ?thesis
    using play by (simp add: close_def onaudioprocess_def)
qed

theorem enqueue_after_close_schedules_witness:
  "audioContext (new_AudioManager 24000) \<noteq> None \<and> outputAnalyser (new_AudioManager 24000)
   \<and> decodeAudioData ''AAA='' 24000 1 =
       Inr \<lparr>numberOfChannels = 1, frames = 1, sampleRate = 24000, channelData = [[0]]\<rparr>
   \<and> snd (playAudioChunk (close (new_AudioManager 24000)) 7 ''AAA='') =
       Scheduled \<lparr> nodeId = 0,
                   buffer = \<lparr>numberOfChannels = 1, frames = 1, sampleRate = 24000,
                              channelData = [[0]]\<rparr>,
                   startTime = 7 \<rparr>
   \<and> nextStartTime (fst (playAudioChunk (close (new_AudioManager 24000)) 7 ''AAA='')) = 7 + 1 / 24000"
proof -
  let ?m = "new_AudioManager 24000"
  have c: "audioContext ?m \<noteq> None" and a: "outputAnalyser ?m" and n: "created ?m = 0"
    by (simp_all add: new_AudioManager_def)
  have d: "decodeAudioData ''AAA='' 24000 1 =
       Inr \<lparr>numberOfChannels = 1, frames = 1, sampleRate = 24000, channelData = [[0]]\<rparr>"
    using decode_one_frame by simp
  show ?thesis
    using enqueue_after_close_schedules[OF c a d, of 7] c a d n
    by (simp add: duration_def)
qed

section \<open>Properties of the capture gate\<close>

subsection \<open>Rounding to double precision\<close>

lemma round_even_bounds: "x - 1 / 2 \<le> of_int (round_even x) \<and> of_int (round_even x) \<le> x + 1 / 2"
proof -
  define f where "f = \<lfloor>x\<rfloor>"
  have f: "of_int f \<le> x" "x < of_int f + 1" unfolding f_def by linarith+
  have "round_even x = (if x - of_int f < 1 / 2 then f else if 1 / 2 < x - of_int f then f + 1
                        else if even f then f else f + 1)"
    by (simp add: round_even_def Let_def f_def)
  with f show ?thesis by (auto split: if_splits)
qed

lemma round_even_of_int [simp]: "round_even (of_int n) = n"
  by (simp add: round_even_def)

lemma round_even_mono:
  assumes "x \<le> y"
  shows "round_even x \<le> round_even y"
proof (rule ccontr)
  assume "\<not> round_even x \<le> round_even y"
  then have gt: "round_even y + 1 \<le> round_even x" by simp
  have bx: "of_int (round_even x) \<le> x + 1 / 2" and by': "y - 1 / 2 \<le> of_int (round_even y)"
    using round_even_bounds by blast+
  from gt have "real_of_int (round_even y) + 1 \<le> of_int (round_even x)" by linarith
  with bx by' assms have "x = y" by linarith
  with gt show False by simp
qed

lemma round_even_ge: "of_int a \<le> x \<Longrightarrow> a \<le> round_even x"
  using round_even_mono[of "of_int a" x] by simp

lemma round_even_le: "x \<le> of_int b \<Longrightarrow> round_even x \<le> b"
  using round_even_mono[of x "of_int b"] by simp

lemma two_powr_int: "2 powr of_int k = (power_int 2 k :: real)"
  by (rule powr_real_of_int') simp_all

lemma floor_log2:
  assumes "0 < x" and "power_int 2 k \<le> x" and "x < power_int 2 (k + 1)"
  shows "\<lfloor>log 2 x\<rfloor> = k"
proof (rule floor_unique)
  have "2 powr of_int k \<le> x" using assms(2) by (simp only: two_powr_int)
  then show "of_int k \<le> log 2 x" using assms(1) le_log_iff[of 2 x "of_int k"] by simp
  have "x < 2 powr of_int (k + 1)" using assms(3) by (simp only: two_powr_int)
  then have "log 2 x < of_int (k + 1)" using assms(1) log_less_iff[of 2 x "of_int (k + 1)"] by simp
  then show "log 2 x < of_int k + 1" by simp
qed

lemma log2_bounds:
  assumes "0 < x"
  shows "power_int 2 \<lfloor>log 2 x\<rfloor> \<le> x \<and> x < power_int 2 (\<lfloor>log 2 x\<rfloor> + 1)"
proof -
  define e where "e = \<lfloor>log 2 x\<rfloor>"
  have e: "of_int e \<le> log 2 x" "log 2 x < of_int (e + 1)" unfolding e_def by linarith+
  have "2 powr of_int e \<le> x" using e(1) assms le_log_iff[of 2 x "of_int e"] by simp
  moreover have "x < 2 powr of_int (e + 1)"
    using e(2) assms log_less_iff[of 2 x "of_int (e + 1)"] by simp
  ultimately show ?thesis unfolding e_def[symmetric] by (simp only: two_powr_int)
qed

lemma fl_eval:
  assumes "0 < x" and "power_int 2 k \<le> x" and "x < power_int 2 (k + 1)" and "- 1022 \<le> k"
  shows "fl x = of_int (round_even (x / power_int 2 (k - 52))) * power_int 2 (k - 52)"
proof -
  have "\<lfloor>log 2 \<bar>x\<bar>\<rfloor> = k" using floor_log2[OF assms(1-3)] assms(1) by simp
  then have "ulp_exponent x = k - 52" using assms(4) by (simp add: ulp_exponent_def)
  then show ?thesis using assms(1) by (simp add: fl_def)
qed

lemma fl_subnormal:
  assumes "0 < x" and "x < power_int 2 (- 1022)"
  shows "fl x = of_int (round_even (x / power_int 2 (- 1074))) * power_int 2 (- 1074)"
proof -
  define e where "e = \<lfloor>log 2 x\<rfloor>"
  have "power_int 2 e \<le> x" using log2_bounds[OF assms(1)] by (simp add: e_def)
  with assms(2) have "power_int (2::real) e < power_int 2 (- 1022)" by linarith
  then have "e < - 1022"
    by (metis linorder_not_le one_le_numeral power_int_increasing)
  then have "ulp_exponent x = - 1074" using assms(1) by (simp add: ulp_exponent_def e_def)
  then show ?thesis using assms(1) by (simp add: fl_def)
qed

lemma fl_zero [simp]: "fl 0 = 0"
  by (simp add: fl_def)

lemma fl_minus: "fl (- x) = - fl x"
  by (simp add: fl_def ulp_exponent_def sgn_minus)

lemma fl_pos_form:
  assumes "0 < x"
  shows "fl x = of_int (round_even (x / power_int 2 (ulp_exponent x))) * power_int 2 (ulp_exponent x)"
  using assms by (simp add: fl_def)

lemma ulp_exponent_mono:
  assumes "0 < x" and "x \<le> y"
  shows "ulp_exponent x \<le> ulp_exponent y"
proof -
  have "log 2 x \<le> log 2 y" using assms by simp
  then have "\<lfloor>log 2 x\<rfloor> \<le> \<lfloor>log 2 y\<rfloor>" by (rule floor_mono)
  then show ?thesis using assms by (simp add: ulp_exponent_def)
qed

lemma power_int_53: "power_int (2::real) (e + 53) = power_int 2 e * 9007199254740992"
proof -
  have "power_int (2::real) (e + 53) = power_int 2 e * power_int 2 53"
    by (rule power_int_add) simp
  then show ?thesis by simp
qed

lemma power_int_52: "power_int (2::real) (e + 52) = power_int 2 e * 4503599627370496"
proof -
  have "power_int (2::real) (e + 52) = power_int 2 e * power_int 2 52"
    by (rule power_int_add) simp
  then show ?thesis by simp
qed

lemma fl_upper:
  assumes "0 < x"
  shows "fl x \<le> power_int 2 (ulp_exponent x + 53)"
proof -
  define e where "e = ulp_exponent x"
  define u :: real where "u = power_int 2 e"
  have u: "0 < u" by (simp add: u_def)
  have "\<lfloor>log 2 x\<rfloor> + 1 \<le> e + 53" using assms by (simp add: e_def ulp_exponent_def)
  then have "power_int (2::real) (\<lfloor>log 2 x\<rfloor> + 1) \<le> power_int 2 (e + 53)"
    by (intro power_int_increasing) simp_all
  with log2_bounds[OF assms] have "x \<le> power_int 2 (e + 53)" by linarith
  then have "x \<le> u * 9007199254740992" by (simp add: power_int_53 u_def)
  then have "x / u \<le> of_int 9007199254740992" using u by (simp add: field_simps)
  then have "round_even (x / u) \<le> 9007199254740992" by (rule round_even_le)
  then have "real_of_int (round_even (x / u)) \<le> 9007199254740992" by linarith
  then have "of_int (round_even (x / u)) * u \<le> 9007199254740992 * u"
    using u by (simp only: mult_le_cancel_right_pos)
  then show ?thesis
    using assms by (simp add: fl_pos_form e_def[symmetric] u_def[symmetric] power_int_53 mult.commute)
qed

lemma fl_lower:
  assumes "0 < x" and "- 1022 \<le> \<lfloor>log 2 x\<rfloor>"
  shows "power_int 2 (ulp_exponent x + 52) \<le> fl x"
proof -
  define e where "e = ulp_exponent x"
  define u :: real where "u = power_int 2 e"
  have u: "0 < u" by (simp add: u_def)
  have "e + 52 = \<lfloor>log 2 x\<rfloor>" using assms by (simp add: e_def ulp_exponent_def)
  with log2_bounds[OF assms(1)] have "power_int 2 (e + 52) \<le> x" by simp
  then have "u * 4503599627370496 \<le> x" by (simp add: power_int_52 u_def)
  then have "of_int 4503599627370496 \<le> x / u" using u by (simp add: field_simps)
  then have "4503599627370496 \<le> round_even (x / u)" by (rule round_even_ge)
  then have "4503599627370496 \<le> real_of_int (round_even (x / u))" by linarith
  then have "4503599627370496 * u \<le> of_int (round_even (x / u)) * u"
    using u by (simp only: mult_le_cancel_right_pos)
  then show ?thesis
    using assms by (simp add: fl_pos_form e_def[symmetric] u_def[symmetric] power_int_52 mult.commute)
qed

lemma fl_nonneg:
  assumes "0 \<le> x"
  shows "0 \<le> fl x"
proof (cases "x = 0")
  case True
  then show ?thesis by simp
next
  case False
  with assms have x: "0 < x" by simp
  define u :: real where "u = power_int 2 (ulp_exponent x)"
  have u: "0 < u" by (simp add: u_def)
  have "of_int 0 \<le> x / u" using x u by simp
  then have "0 \<le> round_even (x / u)" by (rule round_even_ge)
  then show ?thesis using x u by (simp add: fl_pos_form u_def[symmetric])
qed

lemma fl_mono_pos:
  assumes "0 < x" and "x \<le> y"
  shows "fl x \<le> fl y"
proof -
  have y: "0 < y" using assms by linarith
  have le: "ulp_exponent x \<le> ulp_exponent y" by (rule ulp_exponent_mono[OF assms])
  show ?thesis
  proof (cases "ulp_exponent x = ulp_exponent y")
    case True
    define u :: real where "u = power_int 2 (ulp_exponent y)"
    have u: "0 < u" by (simp add: u_def)
    have "x / u \<le> y / u" using assms u by (simp add: divide_right_mono)
    then have "round_even (x / u) \<le> round_even (y / u)" by (rule round_even_mono)
    then have "real_of_int (round_even (x / u)) \<le> of_int (round_even (y / u))" by linarith
    then have "of_int (round_even (x / u)) * u \<le> of_int (round_even (y / u)) * u"
      using u by (simp only: mult_le_cancel_right_pos)
    then show ?thesis using assms(1) y True by (simp add: fl_pos_form u_def[symmetric])
  next
    case False
    with le have lt: "ulp_exponent x + 53 \<le> ulp_exponent y + 52" by linarith
    have "- 1022 \<le> \<lfloor>log 2 y\<rfloor>"
    proof (rule ccontr)
      assume "\<not> - 1022 \<le> \<lfloor>log 2 y\<rfloor>"
      then have "ulp_exponent y = - 1074" using y by (simp add: ulp_exponent_def)
      moreover have "- 1074 \<le> ulp_exponent x" by (simp add: ulp_exponent_def)
      ultimately show False using lt by linarith
    qed
    then have "power_int 2 (ulp_exponent y + 52) \<le> fl y" by (rule fl_lower[OF y])
    moreover have "fl x \<le> power_int 2 (ulp_exponent x + 53)" by (rule fl_upper[OF assms(1)])
    moreover have "power_int (2::real) (ulp_exponent x + 53) \<le> power_int 2 (ulp_exponent y + 52)"
      using lt by (intro power_int_increasing) simp_all
    ultimately show ?thesis by linarith
  qed
qed

lemma fl_mono:
  assumes "x \<le> y"
  shows "fl x \<le> fl y"
proof -
  consider "0 < x" | "x = 0" | "x < 0" "y < 0" | "x < 0" "0 \<le> y" by linarith
  then show ?thesis
  proof cases
    case 1
    then show ?thesis using assms by (rule fl_mono_pos)
  next
    case 2
    then show ?thesis using assms fl_nonneg[of y] by simp
  next
    case 3
    then have "fl (- y) \<le> fl (- x)" using assms by (intro fl_mono_pos) simp_all
    then show ?thesis by (simp add: fl_minus)
  next
    case 4
    have "0 \<le> fl (- x)" using 4(1) by (intro fl_nonneg) simp
    then have "fl x \<le> 0" by (simp add: fl_minus)
    moreover have "0 \<le> fl y" using 4(2) by (rule fl_nonneg)
    ultimately show ?thesis by linarith
  qed
qed

lemma fl_one [simp]: "fl 1 = 1"
  using fl_eval[of 1 0] by (simp add: round_even_def Let_def)

lemma fl_two [simp]: "fl 2 = 2"
  using fl_eval[of 2 1] by (simp add: round_even_def Let_def)

lemma double_0_001: "fl (1 / 1000) = 1152921504606847 / 1152921504606846976"
  using fl_eval[of "1 / 1000" "- 10"] by (simp add: round_even_def Let_def)

lemma double_0_05: "fl (1 / 20) = 3602879701896397 / 72057594037927936"
  using fl_eval[of "1 / 20" "- 5"] by (simp add: round_even_def Let_def)

lemma double_0_051: "fl (51 / 1000) = 7349874591868649 / 144115188075855872"
  using fl_eval[of "51 / 1000" "- 5"] by (simp add: round_even_def Let_def)

lemma threshold_antimono:
  assumes "s \<le> s'"
  shows "threshold s' \<le> threshold s"
proof -
  have "fl (1 - s') \<le> fl (1 - s)" using assms by (intro fl_mono) simp
  moreover have "0 \<le> fl (5 / 100)" by (intro fl_nonneg) simp
  ultimately have "fl (1 - s') * fl (5 / 100) \<le> fl (1 - s) * fl (5 / 100)"
    by (rule mult_right_mono)
  then have "fl (fl (1 - s') * fl (5 / 100)) \<le> fl (fl (1 - s) * fl (5 / 100))" by (rule fl_mono)
  then show ?thesis unfolding threshold_def by (intro fl_mono) simp
qed

lemma threshold_one: "threshold 1 = 1152921504606847 / 1152921504606846976"
  using fl_eval[of "1152921504606847 / 1152921504606846976" "- 10"]
  by (simp add: threshold_def double_0_001 round_even_def Let_def)

lemma threshold_zero: "threshold 0 = 3674937295934325 / 72057594037927936"
proof -
  have a: "fl (3602879701896397 / 72057594037927936) = 3602879701896397 / 72057594037927936"
    by (subst fl_eval[where k = "- 5"]) (simp_all add: round_even_def Let_def)
  have b: "fl (58798996734949199 / 1152921504606846976) = 3674937295934325 / 72057594037927936"
    by (subst fl_eval[where k = "- 5"]) (simp_all add: round_even_def Let_def)
  show ?thesis
    by (simp add: threshold_def double_0_001 double_0_05 a b)
qed

lemma threshold_boundary:
  "threshold (889460926405673 / 2251799813685248) = 1 / 32"
proof -
  have a: "fl (1362338887279575 / 2251799813685248) = 1362338887279575 / 2251799813685248"
    by (subst fl_eval[where k = "- 1"]) (simp_all add: round_even_def Let_def)
  have b: "fl (4908343124083704370947824191275 / 162259276829213363391578010288128)
           = 272467777455915 / 9007199254740992"
    by (subst fl_eval[where k = "- 6"]) (simp_all add: round_even_def Let_def)
  have c: "fl (36028797018963967 / 1152921504606846976) = 1 / 32"
    by (subst fl_eval[where k = "- 6"]) (simp_all add: round_even_def Let_def)
  show ?thesis
    by (simp add: threshold_def double_0_001 double_0_05 a b c)
qed

lemma sqrt_1024: "sqrt (1 / 1024) = 1 / 32"
  by (rule real_sqrt_unique) (simp_all add: power2_eq_square)

lemma block_rms_32: "block_rms [1 / 32] = Some (1 / 32)"
proof -
  have a: "fl (1 / 1024) = 1 / 1024"
    using fl_eval[of "1 / 1024" "- 10"] by (simp add: round_even_def Let_def)
  have b: "fl (1 / 32) = 1 / 32"
    using fl_eval[of "1 / 32" "- 5"] by (simp add: round_even_def Let_def)
  show ?thesis by (simp add: block_rms_def a b sqrt_1024)
qed

lemma fl_error:
  assumes "0 < x" and "x < power_int 2 (k + 1)" and "- 1022 \<le> k"
  shows "\<bar>fl x - x\<bar> \<le> power_int 2 (k - 53)"
proof -
  define e where "e = \<lfloor>log 2 x\<rfloor>"
  define u :: real where "u = power_int 2 (ulp_exponent x)"
  have u: "0 < u" by (simp add: u_def)
  have "power_int 2 e \<le> x" using log2_bounds[OF assms(1)] by (simp add: e_def)
  with assms(2) have "power_int (2::real) e < power_int 2 (k + 1)" by linarith
  then have "e < k + 1"
    by (metis linorder_not_le one_le_numeral power_int_increasing)
  then have "ulp_exponent x \<le> k - 52"
    using assms(1,3) by (simp add: ulp_exponent_def e_def)
  then have "u \<le> power_int 2 (k - 52)"
    unfolding u_def by (intro power_int_increasing) simp_all
  also have "power_int (2::real) (k - 52) = power_int 2 (k - 53) * 2"
  proof -
    have "power_int (2::real) (k - 53 + 1) = power_int 2 (k - 53) * power_int 2 1"
      by (rule power_int_add) simp
    then show ?thesis by simp
  qed
  finally have small: "u / 2 \<le> power_int 2 (k - 53)" by simp
  have "fl x - x = (of_int (round_even (x / u)) - x / u) * u"
    using assms(1) u by (simp add: fl_pos_form u_def[symmetric] algebra_simps)
  moreover have "\<bar>of_int (round_even (x / u)) - x / u\<bar> \<le> 1 / 2"
    using round_even_bounds[of "x / u"] by linarith
  ultimately have "\<bar>fl x - x\<bar> \<le> 1 / 2 * u"
    using u by (simp add: abs_mult mult_right_mono)
  with small show ?thesis by linarith
qed

lemma threshold_error:
  assumes "0 \<le> s" and "s \<le> 1"
  shows "\<bar>threshold s - (1 / 1000 + (1 - s) * (5 / 100))\<bar> < 1 / 2 ^ 56"
proof -
  define x where "x = 1 - s"
  define b where "b = fl x"
  define c :: real where "c = 3602879701896397 / 72057594037927936"
  define a :: real where "a = 1152921504606847 / 1152921504606846976"
  define p where "p = fl (b * c)"
  have x: "0 \<le> x" "x \<le> 1" using assms by (simp_all add: x_def)
  have b_range: "0 \<le> b" "b \<le> 1"
    using fl_mono[of 0 x] fl_mono[of x 1] x by (simp_all add: b_def)
  have b_err: "\<bar>b - x\<bar> \<le> 1 / 2 ^ 54"
  proof -
    consider "x = 0" | "x = 1" | "0 < x" "x < 1" using x by linarith
    then show ?thesis
    proof cases
      case 1
      then show ?thesis by (simp add: b_def)
    next
      case 2
      then show ?thesis by (simp add: b_def)
    next
      case 3
      then show ?thesis using fl_error[of x "- 1"] by (simp add: b_def)
    qed
  qed
  have c_pos: "0 < c" and c_small: "c < 1 / 16" and c_err: "c - 1 / 20 = 1 / (5 * 2 ^ 56)"
    by (simp_all add: c_def)
  have fl_c: "fl c = c"
    unfolding c_def by (subst fl_eval[where k = "- 5"]) (simp_all add: round_even_def Let_def)
  have bc: "0 \<le> b * c" "b * c \<le> c"
    using b_range c_pos by (simp_all add: mult_left_le_one_le)
  have p_range: "0 \<le> p" "p \<le> c"
    using fl_mono[of 0 "b * c"] fl_mono[of "b * c" c] bc fl_c by (simp_all add: p_def)
  have p_err: "\<bar>p - b * c\<bar> \<le> 1 / 2 ^ 58"
  proof (cases "b * c = 0")
    case True
    have "fl (b * c) - b * c = 0" unfolding True by simp
    then show ?thesis by (simp add: p_def)
  next
    case False
    with bc(1) have "0 < b * c" by linarith
    moreover have "b * c < power_int 2 (- 5 + 1)" using bc(2) c_small by simp
    ultimately show ?thesis using fl_error[of "b * c" "- 5"] by (simp add: p_def)
  qed
  have a_err: "a - 1 / 1000 = 3 / (125 * 2 ^ 60)" by (simp add: a_def)
  have q: "0 < a + p" "a + p < power_int 2 (- 5 + 1)"
    using p_range by (simp_all add: a_def c_def)
  have t_err: "\<bar>fl (a + p) - (a + p)\<bar> \<le> 1 / 2 ^ 58"
    using fl_error[OF q] by simp
  have "b * c - x / 20 = (b - x) * c + x * (c - 1 / 20)" by (simp add: algebra_simps)
  moreover have "\<bar>(b - x) * c\<bar> \<le> 1 / 2 ^ 54 * (1 / 16)"
  proof -
    have "\<bar>(b - x) * c\<bar> = \<bar>b - x\<bar> * c" using c_pos by (simp add: abs_mult)
    also have "\<dots> \<le> 1 / 2 ^ 54 * (1 / 16)"
      using b_err c_pos c_small by (intro mult_mono) simp_all
    finally show ?thesis .
  qed
  moreover have "\<bar>x * (c - 1 / 20)\<bar> \<le> 1 / (5 * 2 ^ 56)"
  proof -
    have "\<bar>x * (c - 1 / 20)\<bar> = x * (1 / (5 * 2 ^ 56))"
      using x(1) by (simp add: c_err abs_mult)
    also have "\<dots> \<le> 1 * (1 / (5 * 2 ^ 56))"
      using x(2) by (intro mult_right_mono) simp_all
    finally show ?thesis by simp
  qed
  ultimately have bc_err: "\<bar>b * c - x / 20\<bar> \<le> 1 / 2 ^ 54 * (1 / 16) + 1 / (5 * 2 ^ 56)"
    by linarith
  have thr: "threshold s = fl (a + p)"
    by (simp add: threshold_def double_0_001 double_0_05 a_def p_def b_def c_def x_def)
  have "\<bar>fl (a + p) - (1 / 1000 + x / 20)\<bar>
          \<le> \<bar>fl (a + p) - (a + p)\<bar> + \<bar>a - 1 / 1000\<bar> + \<bar>p - b * c\<bar> + \<bar>b * c - x / 20\<bar>"
    by linarith
  also have "\<dots> \<le> 1 / 2 ^ 58 + 3 / (125 * 2 ^ 60) + 1 / 2 ^ 58
                    + (1 / 2 ^ 54 * (1 / 16) + 1 / (5 * 2 ^ 56))"
    using t_err p_err bc_err a_err by simp
  also have "\<dots> < 1 / 2 ^ 56" by simp
  finally show ?thesis by (simp add: thr x_def)
qed

lemma block_rms_ones: "block_rms [1, 1] = Some 1"
  by (simp add: block_rms_def)

lemma block_rms_zeros: "block_rms [0, 0] = Some 0"
  by (simp add: block_rms_def)

text \<open>
  C6, as stated, fails in the arithmetic of the source. The threshold computed at
  sensitivity 0 is \<open>3674937295934325 / 2 ^ 56\<close>, the Number printed
  \<open>0.051000000000000004\<close>: it is neither the decimal 0.051 nor the Number nearest to it.
  And at the sensitivity \<open>889460926405673 / 2 ^ 51\<close> (printed \<open>0.395\<close>) the computed
  threshold is \<open>1 / 32\<close>, so the one-sample block \<open>[1 / 32]\<close>, whose RMS \<open>1 / 32\<close> is
  greater than the exact value of \<open>0.001 + (1 - s) * 0.05\<close>, produces no frame.
\<close>

theorem noise_gate_rounding_counterexample:
  "threshold 0 = 3674937295934325 / 72057594037927936
   \<and> threshold 0 \<noteq> 51 / 1000
   \<and> threshold 0 \<noteq> fl (51 / 1000)
   \<and> block_rms [1 / 32] = Some (1 / 32)
   \<and> (1 / 1000 + (1 - 889460926405673 / 2251799813685248) * (5 / 100) :: real) < 1 / 32
   \<and> threshold (889460926405673 / 2251799813685248) = 1 / 32
   \<and> onaudioprocess (new_AudioManager 24000) (889460926405673 / 2251799813685248) [1 / 32] = None"
proof -
  have open_gate: "\<not> isClosed (new_AudioManager 24000)" by (simp add: new_AudioManager_def)
  have "onaudioprocess (new_AudioManager 24000) (889460926405673 / 2251799813685248) [1 / 32] = None"
    using open_gate by (simp add: onaudioprocess_def js_gt_def block_rms_32 threshold_boundary)
  then show ?thesis
    by (simp add: threshold_zero double_0_051 block_rms_32 threshold_boundary)
qed

text \<open>
  C6, amended. While the manager is not closed (\<open>close\<close> detaches the callback, so these
  are the blocks the pipeline captures), the callback hands a frame to \<open>onAudioData\<close>
  exactly when the block's RMS is a number greater than the threshold, both as the
  source computes them in double precision: the threshold is
  \<open>0.001 + (1 - s) * 0.05\<close> with each operation rounded, the RMS of a non-empty block is
  the rounded root of the rounded mean of the squares, summed from the left with every
  step rounded. The frame is the encoded block; otherwise nothing is produced. For all
  sensitivities the computed threshold does not increase as the sensitivity grows; at 1
  it is the Number nearest to 0.001, and at 0 it is \<open>3674937295934325 / 2 ^ 56\<close>
  (printed \<open>0.051000000000000004\<close>), less than \<open>1 / 10 ^ 17\<close> away from 0.051.
  For a sensitivity between 0 and 1 the computed threshold is less than \<open>1 / 2 ^ 56\<close>
  away from the exact value of \<open>0.001 + (1 - s) * 0.05\<close>.
\<close>

theorem noise_gate_threshold:
  assumes "\<not> isClosed m"
  shows "(onaudioprocess m s block \<noteq> None \<longleftrightarrow>
            (\<exists>rms. block_rms block = Some rms \<and> rms > threshold s))
       \<and> threshold s = fl (fl (1 / 1000) + fl (fl (1 - s) * fl (5 / 100)))
       \<and> (block \<noteq> [] \<longrightarrow>
            block_rms block =
              Some (fl (sqrt (fl (foldl (\<lambda>sum x. fl (sum + fl (x * x))) 0 block
                                   / real (length block))))))
       \<and> (block = [] \<longrightarrow> onaudioprocess m s block = None)
       \<and> (onaudioprocess m s block \<noteq> None \<longrightarrow>
            onaudioprocess m s block = Some (createAudioBlob (float32ToInt16 block) 16000))
       \<and> (\<forall>s'. s \<le> s' \<longrightarrow> threshold s' \<le> threshold s)
       \<and> threshold 1 = fl (1 / 1000)
       \<and> fl (1 / 1000) = 1152921504606847 / 1152921504606846976
       \<and> threshold 0 = 3674937295934325 / 72057594037927936
       \<and> \<bar>threshold 0 - 51 / 1000\<bar> < 1 / 10 ^ 17
       \<and> (0 \<le> s \<and> s \<le> 1 \<longrightarrow>
            \<bar>threshold s - (1 / 1000 + (1 - s) * (5 / 100))\<bar> < 1 / 2 ^ 56)"
proof -
  have gate: "onaudioprocess m s block \<noteq> None \<longleftrightarrow>
            (\<exists>rms. block_rms block = Some rms \<and> rms > threshold s)"
    using assms by (cases "block_rms block") (simp_all add: onaudioprocess_def js_gt_def)
  have thr: "threshold s = fl (fl (1 / 1000) + fl (fl (1 - s) * fl (5 / 100)))"
    by (simp add: threshold_def)
  have rms: "block \<noteq> [] \<longrightarrow>
            block_rms block =
              Some (fl (sqrt (fl (foldl (\<lambda>sum x. fl (sum + fl (x * x))) 0 block
                                   / real (length block)))))"
    by (simp add: block_rms_def)
  have empty: "block = [] \<longrightarrow> onaudioprocess m s block = None"
    by (simp add: onaudioprocess_def js_gt_def block_rms_def)
  have frame: "onaudioprocess m s block \<noteq> None \<longrightarrow>
            onaudioprocess m s block = Some (createAudioBlob (float32ToInt16 block) 16000)"
    by (simp add: onaudioprocess_def)
  have mono: "\<forall>s'. s \<le> s' \<longrightarrow> threshold s' \<le> threshold s"
    using threshold_antimono by blast
  have one: "threshold 1 = fl (1 / 1000)"
    by (simp add: threshold_one double_0_001)
  have near: "\<bar>threshold 0 - 51 / 1000\<bar> < 1 / 10 ^ 17"
    by (simp add: threshold_zero)
  have close_to: "0 \<le> s \<and> s \<le> 1 \<longrightarrow>
            \<bar>threshold s - (1 / 1000 + (1 - s) * (5 / 100))\<bar> < 1 / 2 ^ 56"
    using threshold_error[of s] by blast
  show ?thesis
    using gate thr rms empty frame mono one double_0_001 threshold_zero near close_to by blast
qed

theorem noise_gate_threshold_witness:
  "\<not> isClosed (new_AudioManager 24000)
   \<and> onaudioprocess (new_AudioManager 24000) 1 [1, 1] \<noteq> None
   \<and> onaudioprocess (new_AudioManager 24000) 1 [0, 0] = None
   \<and> threshold 1 \<le> threshold (1 / 2)"
proof -
  have o: "\<not> isClosed (new_AudioManager 24000)" by (simp add: new_AudioManager_def)
  have t1: "threshold 1 = 1152921504606847 / 1152921504606846976"
    using noise_gate_threshold[OF o, of 1 "[]"] by simp
  from noise_gate_threshold[OF o, of 1 "[1, 1]"]
  have "onaudioprocess (new_AudioManager 24000) 1 [1, 1] \<noteq> None \<longleftrightarrow>
          (\<exists>rms. block_rms [1, 1] = Some rms \<and> rms > threshold 1)"
    by blast
  then have 1: "onaudioprocess (new_AudioManager 24000) 1 [1, 1] \<noteq> None"
    by (simp add: block_rms_ones t1)
  from noise_gate_threshold[OF o, of 1 "[0, 0]"]
  have "onaudioprocess (new_AudioManager 24000) 1 [0, 0] \<noteq> None \<longleftrightarrow>
          (\<exists>rms. block_rms [0, 0] = Some rms \<and> rms > threshold 1)"
    by blast
  then have 2: "onaudioprocess (new_AudioManager 24000) 1 [0, 0] = None"
    by (simp add: block_rms_zeros t1)
  from noise_gate_threshold[OF o, of "1 / 2" "[]"]
  have "\<forall>s'. 1 / 2 \<le> s' \<longrightarrow> threshold s' \<le> threshold (1 / 2)" by blast
  then have 3: "threshold 1 \<le> threshold (1 / 2)" by simp
  show ?thesis using o 1 2 3 by simp
qed

section \<open>Properties of the PCM codec\<close>

subsection \<open>Base64: decoding an encoding\<close>

lemma index_of_nth:
  "distinct xs \<Longrightarrow> n < length xs \<Longrightarrow> index_of (xs ! n) xs = Some n"
proof (induction xs arbitrary: n)
  case Nil then show ?case by simp
next
  case (Cons x xs)
  show ?case
  proof (cases n)
    case 0 then show ?thesis by simp
  next
    case (Suc k)
    with Cons.prems have "k < length xs" "distinct xs" "xs ! k \<noteq> x" by auto
    with Cons.IH[of k] Suc show ?thesis by simp
  qed
qed

lemma b64chars_length: "length b64chars = 64"
  by (simp add: b64chars_def)

lemma b64chars_distinct: "distinct b64chars"
  by (simp add: b64chars_def)

lemma b64chars_plain: "c \<in> set b64chars \<Longrightarrow> \<not> is_ascii_whitespace c \<and> c \<noteq> CHR ''=''"
  by (auto simp: b64chars_def is_ascii_whitespace_def)

lemma b64val_b64enc: "n < 64 \<Longrightarrow> b64val (b64enc n) = Some n"
  by (simp add: b64val_def b64enc_def index_of_nth b64chars_distinct b64chars_length)

lemma b64enc_plain: "n < 64 \<Longrightarrow> \<not> is_ascii_whitespace (b64enc n) \<and> b64enc n \<noteq> CHR ''=''"
  by (rule b64chars_plain) (simp add: b64enc_def b64chars_length)

lemma sextets_small: "n \<in> set (sextets_of s) \<Longrightarrow> n < 64"
proof (induction s arbitrary: n rule: sextets_of.induct)
  case 1 then show ?case by simp
next
  case (2 a)
  have "(of_char a :: nat) < 256" by simp
  then have "(of_char a :: nat) * 16 div 64 < 64" by arith
  with 2 show ?case by (auto simp: Let_def)
next
  case (3 a b)
  have "(of_char a :: nat) < 256" "(of_char b :: nat) < 256" by simp_all
  then have "((of_char a :: nat) * 1024 + of_char b * 4) div 4096 < 64" by arith
  with 3 show ?case by (auto simp: Let_def)
next
  case (4 a b c rest)
  have "(of_char a :: nat) < 256" "(of_char b :: nat) < 256" "(of_char c :: nat) < 256" by simp_all
  then have "((of_char a :: nat) * 65536 + of_char b * 256 + of_char c) div 262144 < 64" by arith
  with 4 show ?case by (auto simp: Let_def)
qed

lemma those_b64val: "\<forall>n \<in> set ns. n < 64 \<Longrightarrow> those (map b64val (map b64enc ns)) = Some ns"
  by (induction ns) (simp_all add: b64val_b64enc)


lemma comb4: "n = q1 * 64 + x0 \<Longrightarrow> q1 = q2 * 64 + x1 \<Longrightarrow> q2 = q3 * 64 + x2 \<Longrightarrow>
  q3 * 262144 + x2 * 4096 + x1 * 64 + x0 = (n::nat)"
  by simp

lemma div64_step: "(k::nat) div 64 = k div 4096 * 64 + k div 64 mod 64"
proof -
  have "k div 4096 = k div 64 div 64" using div_mult2_eq[of k 64 64] by simp
  then show ?thesis by simp
qed

lemma recombine4:
  "(n div 262144) * 262144 + (n div 4096 mod 64) * 4096 + (n div 64 mod 64) * 64 + n mod 64 = (n :: nat)"
proof (rule comb4)
  show "n = n div 64 * 64 + n mod 64" by simp
  show "n div 64 = n div 4096 * 64 + n div 64 mod 64" by (rule div64_step)
  have "n div 262144 = n div 4096 div 64" using div_mult2_eq[of n 4096 64] by simp
  then show "n div 4096 = n div 262144 * 64 + n div 4096 mod 64" by simp
qed

lemma recombine3:
  "(n div 4096) * 4096 + (n div 64 mod 64) * 64 + n mod 64 = (n :: nat)"
proof -
  have 1: "n = n div 64 * 64 + n mod 64" by simp
  have "(n div 4096 * 64 + n div 64 mod 64) * 64 + n mod 64 = n"
    using 1 div64_step[of n] by simp
  then show ?thesis by (simp add: algebra_simps)
qed

lemma split3a: "b < 256 \<Longrightarrow> c < 256 \<Longrightarrow> (a * 65536 + b * 256 + c) div 65536 = (a::nat)"
proof -
  assume "b < 256" "c < 256"
  then have "b * 256 + c < 65536" by simp
  then have "(b * 256 + c) div 65536 = 0" by simp
  then have "(a * 65536 + (b * 256 + c)) div 65536 = a" by simp
  then show ?thesis by (simp add: add.assoc)
qed

lemma split3b: "b < 256 \<Longrightarrow> c < 256 \<Longrightarrow> (a * 65536 + b * 256 + c) div 256 mod 256 = (b::nat)"
proof -
  assume b: "b < 256" and c: "c < 256"
  have "a * 65536 + b * 256 + c = (a * 256 + b) * 256 + c" by simp
  then have "(a * 65536 + b * 256 + c) div 256 = a * 256 + b" using c by simp
  then show ?thesis using b by simp
qed

lemma split3c: "c < 256 \<Longrightarrow> (a * 65536 + b * 256 + c) mod 256 = (c::nat)"
proof -
  assume c: "c < 256"
  have "a * 65536 + b * 256 + c = (a * 256 + b) * 256 + c" by simp
  then have "(a * 65536 + b * 256 + c) mod 256 = c mod 256" by (metis mod_mult_self3)
  then show ?thesis using c by simp
qed

lemma split2:
  "a < 256 \<Longrightarrow> b < 256 \<Longrightarrow>
   (a * 1024 + b * 4) div 4 div 256 = a \<and> (a * 1024 + b * 4) div 4 mod 256 = (b :: nat)"
proof -
  assume a: "a < 256" and b: "b < 256"
  have "a * 1024 + b * 4 = (a * 256 + b) * 4" by simp
  then have "(a * 1024 + b * 4) div 4 = a * 256 + b" by simp
  then show ?thesis using b by simp
qed


lemma bytes_of_pair: "bytes_of_sextets [n div 64, n mod 64] = [char_of (n div 16)]"
  by simp

lemma bytes_of_triple:
  "bytes_of_sextets [n div 4096, n div 64 mod 64, n mod 64] =
     [char_of (n div 4 div 256), char_of (n div 4 mod 256)]"
  using recombine3[of n] by (simp add: Let_def)

lemma bytes_of_quad:
  "bytes_of_sextets ([n div 262144, n div 4096 mod 64, n div 64 mod 64, n mod 64] @ rest) =
     [char_of (n div 65536), char_of (n div 256 mod 256), char_of (n mod 256)]
     @ bytes_of_sextets rest"
  using recombine4[of n] by (simp add: Let_def)

lemma bytes_of_sextets_of: "bytes_of_sextets (sextets_of s) = s"
proof (induction s rule: sextets_of.induct)
  case 1
  show ?case by simp
next
  case (2 a)
  have "bytes_of_sextets (sextets_of [a]) = [char_of ((of_char a :: nat) * 16 div 16)]"
    by (simp only: sextets_of.simps Let_def bytes_of_pair)
  then show ?case by simp
next
  case (3 a b)
  let ?n = "(of_char a :: nat) * 1024 + of_char b * 4"
  have "bytes_of_sextets (sextets_of [a, b]) =
               [char_of (?n div 4 div 256), char_of (?n div 4 mod 256)]"
    by (simp only: sextets_of.simps Let_def bytes_of_triple)
  moreover have "?n div 4 div 256 = of_char a \<and> ?n div 4 mod 256 = of_char b"
    by (rule split2) simp_all
  ultimately show ?case by simp
next
  case (4 a b c rest)
  let ?n = "(of_char a :: nat) * 65536 + of_char b * 256 + of_char c"
  have "bytes_of_sextets (sextets_of (a # b # c # rest)) =
               [char_of (?n div 65536), char_of (?n div 256 mod 256), char_of (?n mod 256)]
               @ bytes_of_sextets (sextets_of rest)"
    by (simp only: sextets_of.simps Let_def bytes_of_quad)
  moreover have "?n div 65536 = of_char a" by (rule split3a) simp_all
  moreover have "?n div 256 mod 256 = of_char b" by (rule split3b) simp_all
  moreover have "?n mod 256 = of_char c" by (rule split3c) simp
  ultimately show ?case using 4 by simp
qed

lemma length_sextets_of:
  "length (sextets_of s) =
     4 * (length s div 3) + (if length s mod 3 = 0 then 0 else length s mod 3 + 1)"
  by (induction s rule: sextets_of.induct) (simp_all add: Let_def)


lemma no_eq_suffix:
  assumes "\<forall>c \<in> set d. c \<noteq> CHR ''=''" and "drop k d = CHR ''='' # rest"
  shows False
proof -
  have "CHR ''='' \<in> set (drop k d)" using assms(2) by simp
  then have "CHR ''='' \<in> set d" by (rule in_set_dropD)
  with assms(1) show False by blast
qed

lemma strip_padding_plain:
  assumes "\<forall>c \<in> set d. c \<noteq> CHR ''=''"
  shows "strip_padding d = d"
  using no_eq_suffix[OF assms] by (auto simp: strip_padding_def)

lemma strip_padding_one:
  assumes "\<forall>c \<in> set d. c \<noteq> CHR ''=''" and "length d mod 4 = 3"
  shows "strip_padding (d @ ''='') = d"
proof -
  have len: "length (d @ ''='') mod 4 = 0" using assms(2) by (simp add: mod_Suc)
  have d: "d \<noteq> []" using assms(2) by auto
  then obtain ys y where ys: "d = ys @ [y]" by (metis append_butlast_last_id)
  have y: "y \<noteq> CHR ''=''" using assms(1) ys by simp
  have "drop (length (d @ ''='') - 2) (d @ ''='') = [y, CHR ''='']"
    by (simp add: ys)
  then have "drop (length (d @ ''='') - 2) (d @ ''='') \<noteq> ''==''"
    using y by simp
  then show ?thesis using len by (simp add: strip_padding_def)
qed

lemma strip_padding_two:
  assumes "length d mod 4 = 2"
  shows "strip_padding (d @ ''=='') = d"
proof -
  have "length (d @ ''=='') mod 4 = 0" using assms by (simp add: mod_Suc)
  then show ?thesis by (simp add: strip_padding_def)
qed


lemma body_plain:
  "c \<in> set (map b64enc (sextets_of s)) \<Longrightarrow> \<not> is_ascii_whitespace c \<and> c \<noteq> CHR ''=''"
  using b64enc_plain sextets_small by auto

lemma eq_not_whitespace: "\<not> is_ascii_whitespace (CHR ''='')"
  by (simp add: is_ascii_whitespace_def)

lemma btoa_no_whitespace: "filter (\<lambda>c. \<not> is_ascii_whitespace c) (btoa s) = btoa s"
proof -
  have "\<forall>c \<in> set (btoa s). \<not> is_ascii_whitespace c"
    using body_plain[of _ s] eq_not_whitespace by (auto simp: btoa_def padding_def)
  then show ?thesis by simp
qed

lemma mod3_cases: "(n::nat) mod 3 = 0 \<or> n mod 3 = 1 \<or> n mod 3 = 2"
  by arith

lemma strip_padding_btoa:
  "strip_padding (btoa s) = map b64enc (sextets_of s)
   \<and> length (sextets_of s) mod 4 \<noteq> 1"
proof -
  let ?body = "map b64enc (sextets_of s)"
  have plain: "\<forall>c \<in> set ?body. c \<noteq> CHR ''=''" using body_plain[of _ s] by blast
  consider "length s mod 3 = 0" | "length s mod 3 = 1" | "length s mod 3 = 2"
    using mod3_cases[of "length s"] by auto
  then show ?thesis
  proof cases
    case 1
    then have "btoa s = ?body" by (simp add: btoa_def padding_def)
    moreover have "length (sextets_of s) mod 4 = 0" using 1 by (simp add: length_sextets_of)
    ultimately show ?thesis using strip_padding_plain[OF plain] by simp
  next
    case 2
    then have "btoa s = ?body @ ''==''" by (simp add: btoa_def padding_def numeral_2_eq_2)
    moreover have "length (sextets_of s) = 4 * (length s div 3) + 2"
      using 2 by (simp add: length_sextets_of)
    then have l: "length (sextets_of s) mod 4 = 2"
      by (simp only: mod_mult_self4) simp
    moreover have "strip_padding (?body @ ''=='') = ?body"
      by (rule strip_padding_two) (simp add: l)
    ultimately show ?thesis by simp
  next
    case 3
    then have "btoa s = ?body @ ''=''" by (simp add: btoa_def padding_def)
    moreover have "length (sextets_of s) = 4 * (length s div 3) + 3"
      using 3 by (simp add: length_sextets_of)
    then have l: "length (sextets_of s) mod 4 = 3"
      by (simp only: mod_mult_self4) simp
    moreover have "strip_padding (?body @ ''='') = ?body"
      by (rule strip_padding_one[OF plain]) (simp add: l)
    ultimately show ?thesis by simp
  qed
qed

lemma atob_btoa: "atob (btoa s) = Inr s"
proof -
  have "those (map b64val (map b64enc (sextets_of s))) = Some (sextets_of s)"
    by (rule those_b64val) (simp add: sextets_small)
  then show ?thesis
    using strip_padding_btoa[of s]
    by (simp add: atob_def btoa_no_whitespace bytes_of_sextets_of del: map_map)
qed

subsection \<open>Typed-array views and quantisation\<close>

lemma byte_char_byte: "(word_of_nat (of_char (char_of (unat b))) :: uint8) = b"
proof -
  have "unat b < 256" using unsigned_less[of b, where 'a=nat] by simp
  then show ?thesis by simp
qed

lemma halves_join: "ucast (ucast w :: uint8) OR push_bit 8 (ucast (ucast (drop_bit 8 w) :: uint8)) = (w :: int16)"
  by (rule bit_word_eqI) (auto simp: bit_simps)

lemma pair_up_uint8_view: "pair_up (uint8_view ws) = ws"
  by (induction ws) (simp_all add: uint8_view_def halves_join)

lemma length_uint8_view: "length (uint8_view ws) = 2 * length ws"
  by (induction ws) (simp_all add: uint8_view_def)

lemma int16_view_uint8_view: "int16_view (uint8_view ws) = Inr ws"
  by (simp add: int16_view_def length_uint8_view pair_up_uint8_view)

lemma decode_createAudioBlob:
  "decodeAudioData (data (createAudioBlob ws r)) rate 1 =
     (if ws = [] then Inl NotSupportedError
      else Inr \<lparr> numberOfChannels = 1, frames = length ws, sampleRate = rate,
                 channelData = [map (\<lambda>w. real_of_int (sint w) / 32768) ws] \<rparr>)"
proof -
  have bytes: "map (\<lambda>c. (word_of_nat (of_char c) :: uint8))
                 (map (\<lambda>byte. char_of (unat byte)) (uint8_view ws)) = uint8_view ws"
    by (simp only: map_map o_def byte_char_byte map_ident)
  have ix: "map (\<lambda>i. g (ws ! i)) [0 ..< length ws] = map g ws" for g :: "int16 \<Rightarrow> real"
    by (rule nth_equalityI) simp_all
  show ?thesis
    by (simp add: decodeAudioData_def createAudioBlob_def atob_btoa bytes
        int16_view_uint8_view createBuffer_def ix[of "\<lambda>w. signed w / 32768"] Let_def
        del: map_map)
qed


lemma sint_toInt16:
  assumes "- 32768 \<le> k" and "k \<le> 32767"
  shows "sint (word_of_int k :: int16) = k"
proof -
  have "signed_take_bit 15 k = k"
    by (rule signed_take_bit_int_eq_self) (use assms in simp_all)
  then show ?thesis by (simp add: sint_sbintrunc')
qed

lemma quantize_negative:
  assumes "- 1 \<le> x" and "x < 0"
  shows "x \<le> real_of_int (sint (toInt16 (x * 32768))) / 32768
       \<and> real_of_int (sint (toInt16 (x * 32768))) / 32768 < x + 1 / 32768"
proof -
  define k where "k = \<lceil>x * 32768\<rceil>"
  have lo: "- 32768 \<le> k" using assms(1) by (simp add: k_def le_ceiling_iff)
  have hi: "k \<le> 0" using assms(2) by (simp add: k_def ceiling_le_iff)
  have s: "sint (toInt16 (x * 32768)) = k"
    using assms(2) lo hi by (simp add: toInt16_def sint_toInt16 k_def)
  have a: "x * 32768 \<le> real_of_int k" unfolding k_def by linarith
  have b: "real_of_int k < x * 32768 + 1" unfolding k_def by linarith
  have "x \<le> real_of_int k / 32768" using a by (simp add: field_simps)
  moreover have "real_of_int k / 32768 < x + 1 / 32768" using b by (simp add: field_simps)
  ultimately show ?thesis unfolding s by simp
qed

lemma quantize_nonnegative:
  assumes "0 \<le> x" and "x \<le> 1"
  shows "x - (1 + x) / 32768 < real_of_int (sint (toInt16 (x * 32767))) / 32768
       \<and> real_of_int (sint (toInt16 (x * 32767))) / 32768 \<le> x"
proof -
  define k where "k = \<lfloor>x * 32767\<rfloor>"
  have lo: "0 \<le> k" using assms(1) by (simp add: k_def)
  have hi: "k \<le> 32767" using assms(2) by (simp add: k_def floor_le_iff)
  have s: "sint (toInt16 (x * 32767)) = k"
    using assms(1) lo hi by (simp add: toInt16_def sint_toInt16 k_def)
  have a: "real_of_int k \<le> x * 32767" unfolding k_def by linarith
  have b: "x * 32767 - 1 < real_of_int k" unfolding k_def by linarith
  have "x - (1 + x) / 32768 < real_of_int k / 32768" using b by (simp add: field_simps)
  moreover have "real_of_int k \<le> x * 32768" using a assms(1) by linarith
  then have "real_of_int k / 32768 \<le> x" by (simp add: field_simps)
  ultimately show ?thesis unfolding s by simp
qed

lemma roundtrip_sample:
  assumes "- 1 \<le> x" and "x \<le> 1"
  defines "y \<equiv> real_of_int (sint (let s = max (- 1) (min 1 x)
                                in toInt16 (if s < 0 then s * 32768 else s * 32767))) / 32768"
  shows "\<bar>y - x\<bar> < 1 / 16384 \<and> (x < 0 \<longrightarrow> \<bar>y - x\<bar> < 1 / 32768)
         \<and> (x < 0 \<longrightarrow> x \<le> y) \<and> (0 \<le> x \<longrightarrow> y \<le> x)"
proof -
  have clamp: "max (- 1) (min 1 x) = x" using assms(1,2) by simp
  have y: "y = real_of_int (sint (toInt16 (if x < 0 then x * 32768 else x * 32767))) / 32768"
    unfolding y_def by (simp only: clamp Let_def)
  show ?thesis
  proof (cases "x < 0")
    case True
    then have yeq: "real_of_int (sint (toInt16 (x * 32768))) / 32768 = y"
      by (simp only: y if_True)
    have "x \<le> y \<and> y < x + 1 / 32768"
      using quantize_negative[OF assms(1) True] by (simp only: yeq)
    with True show ?thesis by (simp add: abs_less_iff)
  next
    case False
    then have x0: "0 \<le> x" by simp
    from False have yeq: "real_of_int (sint (toInt16 (x * 32767))) / 32768 = y"
      by (simp only: y if_False)
    have "x - (1 + x) / 32768 < y \<and> y \<le> x"
      using quantize_nonnegative[OF x0 assms(2)] by (simp only: yeq)
    moreover have "(1 + x) / 32768 \<le> 1 / 16384" using assms(2) by simp
    ultimately have "y \<le> x" and "x - y < 1 / 16384" by linarith+
    with False show ?thesis by (simp add: abs_less_iff)
  qed
qed


text \<open>
  C5, as stated, fails. The sample \<open>65535/65536\<close> (a 32-bit float) is encoded as
  \<open>\<lfloor>32766.5\<rfloor> = 32766\<close> and decoded as \<open>32766/32768 = 16383/16384\<close>: the difference is
  \<open>3/65536\<close>, more than \<open>1/32768\<close>. (Encoding scales positive samples by \<open>0x7FFF\<close>,
  decoding divides by 32768.) And the empty sequence does not decode at all:
  \<open>createBuffer\<close> refuses a buffer of no frames.
\<close>

theorem pcm_roundtrip_counterexample:
  "decodeAudioData (data (createAudioBlob (float32ToInt16 [65535 / 65536]) 16000)) 24000 1 =
     Inr \<lparr> numberOfChannels = 1, frames = 1, sampleRate = 24000,
           channelData = [[16383 / 16384]] \<rparr>
   \<and> \<not> \<bar>16383 / 16384 - 65535 / 65536\<bar> \<le> (1 / 32768 :: real)
   \<and> decodeAudioData (data (createAudioBlob (float32ToInt16 []) 16000)) 24000 1 =
       Inl NotSupportedError"
proof -
  have q: "float32ToInt16 [65535 / 65536] = [32766]"
    by (simp add: float32ToInt16_def toInt16_def)
  have s: "real_of_int (sint (32766 :: int16)) / 32768 = 16383 / 16384"
    by simp
  have e: "float32ToInt16 [] = []" by (simp add: float32ToInt16_def)
  show ?thesis
    unfolding q e decode_createAudioBlob using s by simp
qed

text \<open>
  C5, amended. For every non-empty sample sequence with all values in \<open>[-1, 1]\<close>,
  decoding the framed encoding (one channel, 24 kHz) succeeds and yields one channel of
  the same length, each element within less than \<open>2/32768\<close> of the corresponding sample,
  and within less than \<open>1/32768\<close> where the sample is negative. Samples are reals here;
  on 32-bit float samples every step of the source is exact in double precision.
\<close>

theorem pcm_roundtrip:
  assumes "xs \<noteq> []" and "\<forall>x \<in> set xs. - 1 \<le> x \<and> x \<le> 1"
  shows "\<exists>ys. decodeAudioData (data (createAudioBlob (float32ToInt16 xs) 16000)) 24000 1 =
               Inr \<lparr> numberOfChannels = 1, frames = length xs, sampleRate = 24000,
                     channelData = [ys] \<rparr>
            \<and> length ys = length xs
            \<and> (\<forall>i < length xs. \<bar>ys ! i - xs ! i\<bar> < 1 / 16384
                  \<and> (xs ! i < 0 \<longrightarrow> \<bar>ys ! i - xs ! i\<bar> < 1 / 32768))"
proof -
  let ?q = "\<lambda>x. let s = max (- 1) (min 1 x) in toInt16 (if s < 0 then s * 32768 else s * 32767)"
  let ?ys = "map (\<lambda>w. real_of_int (sint w) / 32768) (float32ToInt16 xs)"
  have ne: "float32ToInt16 xs \<noteq> []" using assms(1) by (simp add: float32ToInt16_def)
  have len: "length (float32ToInt16 xs) = length xs" by (simp add: float32ToInt16_def)
  have dec: "decodeAudioData (data (createAudioBlob (float32ToInt16 xs) 16000)) 24000 1 =
               Inr \<lparr> numberOfChannels = 1, frames = length xs, sampleRate = 24000,
                     channelData = [?ys] \<rparr>"
    using ne len by (simp only: decode_createAudioBlob if_False)
  have bound: "\<bar>?ys ! i - xs ! i\<bar> < 1 / 16384
                \<and> (xs ! i < 0 \<longrightarrow> \<bar>?ys ! i - xs ! i\<bar> < 1 / 32768)" if "i < length xs" for i
  proof -
    have "xs ! i \<in> set xs" using that by simp
    then have r: "- 1 \<le> xs ! i" "xs ! i \<le> 1" using assms(2) by auto
    have "?ys ! i = real_of_int (sint (?q (xs ! i))) / 32768"
      unfolding float32ToInt16_def using that by (simp only: nth_map length_map)
    then show ?thesis using roundtrip_sample[OF r] by (simp only:) blast
  qed
  show ?thesis
    by (rule exI[of _ ?ys]) (use dec len bound in simp)
qed

theorem pcm_roundtrip_witness:
  "[1, - 1 / 2] \<noteq> ([] :: real list)
   \<and> - 1 \<le> (1 :: real) \<and> (1 :: real) \<le> 1 \<and> - 1 \<le> (- 1 / 2 :: real) \<and> (- 1 / 2 :: real) \<le> 1
   \<and> (\<exists>ys. decodeAudioData (data (createAudioBlob (float32ToInt16 [1, - 1 / 2]) 16000)) 24000 1 =
               Inr \<lparr> numberOfChannels = 1, frames = 2, sampleRate = 24000, channelData = [ys] \<rparr>
            \<and> length ys = 2
            \<and> \<bar>ys ! 0 - 1\<bar> < 1 / 16384 \<and> \<bar>ys ! 1 - (- 1 / 2)\<bar> < 1 / 32768)"
proof -
  have h1: "[1, - 1 / 2] \<noteq> ([] :: real list)" by simp
  have h2: "\<forall>x \<in> set [1, - 1 / 2 :: real]. - 1 \<le> x \<and> x \<le> 1" by simp
  from pcm_roundtrip[OF h1 h2] obtain ys where
    ys: "decodeAudioData (data (createAudioBlob (float32ToInt16 [1, - 1 / 2]) 16000)) 24000 1 =
               Inr \<lparr> numberOfChannels = 1, frames = length [1, - 1 / 2 :: real], sampleRate = 24000,
                     channelData = [ys] \<rparr>"
      "length ys = length [1, - 1 / 2 :: real]"
      "\<forall>i < length [1, - 1 / 2 :: real]. \<bar>ys ! i - [1, - 1 / 2] ! i\<bar> < 1 / 16384
                  \<and> ([1, - 1 / 2 :: real] ! i < 0 \<longrightarrow> \<bar>ys ! i - [1, - 1 / 2] ! i\<bar> < 1 / 32768)"
    by blast
  from ys(3) have "\<bar>ys ! 0 - 1\<bar> < 1 / 16384" by force
  moreover from ys(3) have "\<bar>ys ! 1 - (- 1 / 2)\<bar> < 1 / 32768" by force
  ultimately show ?thesis using h1 ys(1,2) by auto
qed

section \<open>Properties of the tool dispatcher\<close>

lemma open_website_shape:
  "open_website args \<noteq> None \<and> (open_website args = Some (effects, Inr r) \<longrightarrow> (\<exists>v. r = Result v))"
  by (auto simp: open_website_def read_prop_def Let_def split: option.splits sum.splits)

lemma get_current_time_shape:
  "get_current_time env \<noteq> None \<and> (get_current_time env = Some (effects, Inr r) \<longrightarrow> (\<exists>v. r = Result v))"
  by (auto simp: get_current_time_def)

lemma read_active_file_shape:
  "read_active_file f \<noteq> None \<and> (read_active_file f = Some (effects, Inr r) \<longrightarrow> (\<exists>v. r = Result v))"
  by (auto simp: read_active_file_def Let_def split: option.splits)

lemma consult_logic_core_shape:
  "consult_logic_core env args \<noteq> None
   \<and> (consult_logic_core env args = Some (effects, Inr r) \<longrightarrow> (\<exists>v. r = Result v))"
  by (auto simp: consult_logic_core_def read_prop_def Let_def split: option.splits sum.splits)

lemma search_web_shape:
  "search_web env args \<noteq> None
   \<and> (search_web env args = Some (effects, Inr r) \<longrightarrow> (\<exists>v. r = Result v))"
  by (auto simp: search_web_def read_prop_def Let_def split: option.splits sum.splits)

lemma find_places_shape:
  "find_places env args \<noteq> None
   \<and> (find_places env args = Some (effects, Inr r) \<longrightarrow> (\<exists>v. r = Result v))"
  by (auto simp: find_places_def read_prop_def Let_def split: option.splits sum.splits)

lemma generate_image_shape:
  "generate_image env args \<noteq> None
   \<and> (generate_image env args = Some (effects, Inr r) \<longrightarrow> (\<exists>v. r = Result v))"
  by (auto simp: generate_image_def Let_def split: option.splits sum.splits)

lemma video_finished_shape:
  "video_finished env prompt apiKey before operation \<noteq> None
   \<and> (video_finished env prompt apiKey before operation = Some (effects, Inr r) \<longrightarrow> (\<exists>v. r = Result v))"
  by (auto simp: video_finished_def Let_def split: sum.splits)

lemma generate_video_shape:
  "generate_video env args apiKey = Some (effects, Inr r) \<Longrightarrow> \<exists>v. r = Result v"
  using video_finished_shape
  by (auto simp: generate_video_def read_prop_def split: option.splits sum.splits prod.splits)

lemma tool_body_result_shape:
  "tool_body env name args apiKey activeFile = Some (effects, Inr r) \<Longrightarrow> \<exists>v. r = Result v"
  unfolding tool_body_def
  using open_website_shape get_current_time_shape read_active_file_shape
    consult_logic_core_shape search_web_shape find_places_shape generate_image_shape
    generate_video_shape
  by (auto split: if_splits)

lemma tool_body_returns:
  "name \<noteq> ''generate_video'' \<Longrightarrow> tool_body env name args apiKey activeFile \<noteq> None"
  unfolding tool_body_def
  using open_website_shape get_current_time_shape read_active_file_shape
    consult_logic_core_shape search_web_shape find_places_shape generate_image_shape
  by (auto split: if_splits)


text \<open>
  C4, as stated, fails on the shape. A call of \<open>open_website\<close> without arguments
  throws a \<open>TypeError\<close> inside the capability; it is caught, logged, and the call
  returns \<open>{result: "Error executing tool: ..."}\<close>, not \<open>{error: ...}\<close>.
\<close>

theorem executeTool_result_counterexample:
  "executeTool offline ''open_website'' None ''KEY'' None =
     Some ([ConsoleError (TypeError ''Cannot read properties of undefined'')],
           Inr (Result (Some ''Error executing tool: Cannot read properties of undefined'')))"
  by (simp add: executeTool_def tool_body_def open_website_def read_prop_def)

text \<open>
  C4, amended. For every world, capability name, argument object, key and active file,
  \<open>executeTool\<close> never rejects; it never returns an object of the shape
  \<open>{error: ...}\<close>; whenever the body of its \<open>try\<close> throws an error \<open>e\<close>, the call logs it
  and returns \<open>{result: "Error executing tool: " + e.message}\<close>; and every capability
  other than \<open>generate_video\<close> (whose polling loop has no bound) returns.
\<close>

theorem executeTool_catches_failures:
  "(\<forall>effects e. executeTool env name args apiKey activeFile \<noteq> Some (effects, Inl e))
   \<and> (\<forall>effects msg. executeTool env name args apiKey activeFile
          \<noteq> Some (effects, Inr (ErrorResponse msg)))
   \<and> (\<forall>effects e. tool_body env name args apiKey activeFile = Some (effects, Inl e) \<longrightarrow>
         executeTool env name args apiKey activeFile =
           Some (effects @ [ConsoleError e],
                 Inr (Result (Some (''Error executing tool: '' @ message e)))))
   \<and> (name \<noteq> ''generate_video'' \<longrightarrow> executeTool env name args apiKey activeFile \<noteq> None)"
proof -
  have 1: "\<forall>effects e. executeTool env name args apiKey activeFile \<noteq> Some (effects, Inl e)"
    by (auto simp: executeTool_def split: option.splits sum.splits prod.splits)
  have 2: "\<forall>effects msg. executeTool env name args apiKey activeFile
             \<noteq> Some (effects, Inr (ErrorResponse msg))"
    using tool_body_result_shape[of env name args apiKey activeFile]
    by (auto simp: executeTool_def split: option.splits sum.splits prod.splits)
  have 3: "\<forall>effects e. tool_body env name args apiKey activeFile = Some (effects, Inl e) \<longrightarrow>
         executeTool env name args apiKey activeFile =
           Some (effects @ [ConsoleError e],
                 Inr (Result (Some (''Error executing tool: '' @ message e))))"
    by (simp add: executeTool_def)
  have 4: "name \<noteq> ''generate_video'' \<longrightarrow> executeTool env name args apiKey activeFile \<noteq> None"
  proof
    assume "name \<noteq> ''generate_video''"
    then have "tool_body env name args apiKey activeFile \<noteq> None" by (rule tool_body_returns)
    then show "executeTool env name args apiKey activeFile \<noteq> None"
      by (auto simp: executeTool_def split: option.splits sum.splits prod.splits)
  qed
  show ?thesis using 1 2 3 4 by blast
qed

theorem executeTool_catches_failures_witness:
  "tool_body offline ''consult_logic_core''
       (Some \<lparr> arg_url = None, arg_query = Some ''2+2'', arg_prompt = None, arg_aspectRatio = None \<rparr>)
       ''KEY'' None =
     Some ([ContentRequested \<lparr> req_model = ''gemini-3-pro-preview'', req_contents = Some ''2+2'',
                                req_config = ThinkingConfig 16000 \<rparr>],
           Inl (Error ''Failed to fetch''))
   \<and> executeTool offline ''consult_logic_core''
       (Some \<lparr> arg_url = None, arg_query = Some ''2+2'', arg_prompt = None, arg_aspectRatio = None \<rparr>)
       ''KEY'' None =
     Some ([ContentRequested \<lparr> req_model = ''gemini-3-pro-preview'', req_contents = Some ''2+2'',
                                req_config = ThinkingConfig 16000 \<rparr>,
            ConsoleError (Error ''Failed to fetch'')],
           Inr (Result (Some ''Error executing tool: Failed to fetch'')))
   \<and> ''consult_logic_core'' \<noteq> ''generate_video''"
proof -
  let ?args = "Some \<lparr> arg_url = None, arg_query = Some ''2+2'', arg_prompt = None,
                       arg_aspectRatio = None \<rparr>"
  have body: "tool_body offline ''consult_logic_core'' ?args ''KEY'' None =
     Some ([ContentRequested \<lparr> req_model = ''gemini-3-pro-preview'', req_contents = Some ''2+2'',
                                req_config = ThinkingConfig 16000 \<rparr>],
           Inl (Error ''Failed to fetch''))"
    by (simp add: tool_body_def consult_logic_core_def read_prop_def offline_def)
  show ?thesis
    using executeTool_catches_failures[of offline "''consult_logic_core''" ?args "''KEY''" None]
      body
    by simp
qed

lemma poll_step:
  "\<not> op_done operation \<Longrightarrow> getOp k = Inr operation' \<Longrightarrow>
   poll getOp k operation = poll getOp (Suc k) operation'"
  by (subst poll.simps) simp

lemma poll_done: "op_done operation \<Longrightarrow> poll getOp k operation = Some (k, Inr operation)"
  by (subst poll.simps) simp

lemma poll_three:
  assumes "\<not> op_done op0"
    and "getOp 0 = Inr op1" and "\<not> op_done op1"
    and "getOp 1 = Inr op2" and "\<not> op_done op2"
    and "getOp 2 = Inr op3" and "op_done op3"
  shows "poll getOp 0 op0 = Some (3, Inr op3)"
proof -
  have g1: "getOp (Suc 0) = Inr op2" using assms(4) by simp
  have g2: "getOp (Suc (Suc 0)) = Inr op3" using assms(6) by (simp add: numeral_2_eq_2)
  have "poll getOp 0 op0 = poll getOp (Suc 0) op1"
    using assms(1,2) by (rule poll_step)
  also have "\<dots> = poll getOp (Suc (Suc 0)) op2"
    using assms(3) g1 by (rule poll_step)
  also have "\<dots> = poll getOp (Suc (Suc (Suc 0))) op3"
    using assms(5) g2 by (rule poll_step)
  also have "\<dots> = Some (Suc (Suc (Suc 0)), Inr op3)"
    using assms(7) by (rule poll_done)
  finally show ?thesis by (simp add: numeral_3_eq_3)
qed

lemma poll_effects_three:
  "poll_effects 3 = [Sleep 3000, OperationRequested 0, Sleep 3000, OperationRequested 1,
                     Sleep 3000, OperationRequested 2]"
  by (simp add: poll_effects_def numeral_3_eq_3)

text \<open>
  C9, as stated, fails when the download of the finished video fails. The operation
  is not done when created, not done at the first two status requests and done at the
  third, with a video URI; the capability makes its three status requests and then
  fetches the asset; the fetch throws, the error is caught and logged, and the call
  returns an error text. No media item is emitted.
\<close>

theorem video_fetch_failure_counterexample:
  "executeTool video_fetch_fails ''generate_video''
       (Some \<lparr> arg_url = None, arg_query = None, arg_prompt = Some ''a red kite'',
               arg_aspectRatio = None \<rparr>) ''KEY'' None =
     Some ([VideosRequested (Some ''a red kite''),
            Sleep 3000, OperationRequested 0,
            Sleep 3000, OperationRequested 1,
            Sleep 3000, OperationRequested 2,
            Fetched ''https://video.example/v1?alt=media&key=KEY'',
            ConsoleError (Error ''Failed to fetch'')],
           Inr (Result (Some ''Error executing tool: Failed to fetch'')))
   \<and> getVideosOperation video_fetch_fails 2 =
       Inr \<lparr> op_done = True, op_videoUri = Some ''https://video.example/v1?alt=media'' \<rparr>
   \<and> media_items [VideosRequested (Some ''a red kite''),
            Sleep 3000, OperationRequested 0,
            Sleep 3000, OperationRequested 1,
            Sleep 3000, OperationRequested 2,
            Fetched ''https://video.example/v1?alt=media&key=KEY'',
            ConsoleError (Error ''Failed to fetch'')] = []"
proof -
  let ?pending = "\<lparr> op_done = False, op_videoUri = None \<rparr>"
  let ?ready = "\<lparr> op_done = True, op_videoUri = Some ''https://video.example/v1?alt=media'' \<rparr>"
  have g: "getVideosOperation video_fetch_fails 0 = Inr ?pending"
    "getVideosOperation video_fetch_fails 1 = Inr ?pending"
    "getVideosOperation video_fetch_fails 2 = Inr ?ready"
    by (simp_all add: video_fetch_fails_def video_ready_at_third_def offline_def)
  have p: "poll (getVideosOperation video_fetch_fails) 0 ?pending = Some (3, Inr ?ready)"
    by (rule poll_three[OF _ g(1) _ g(2) _ g(3)]) simp_all
  have v: "generateVideos video_fetch_fails (Some ''a red kite'') = Inr ?pending"
    and f: "fetchObjectURL video_fetch_fails ''https://video.example/v1?alt=media&key=KEY''
            = Inl (Error ''Failed to fetch'')"
    by (simp_all add: video_fetch_fails_def video_ready_at_third_def offline_def)
  have "executeTool video_fetch_fails ''generate_video''
       (Some \<lparr> arg_url = None, arg_query = None, arg_prompt = Some ''a red kite'',
               arg_aspectRatio = None \<rparr>) ''KEY'' None =
     Some ([VideosRequested (Some ''a red kite''),
            Sleep 3000, OperationRequested 0,
            Sleep 3000, OperationRequested 1,
            Sleep 3000, OperationRequested 2,
            Fetched ''https://video.example/v1?alt=media&key=KEY'',
            ConsoleError (Error ''Failed to fetch'')],
           Inr (Result (Some ''Error executing tool: Failed to fetch'')))"
    by (simp add: executeTool_def tool_body_def generate_video_def read_prop_def v p
        video_finished_def truthy_def str_def f poll_effects_three Let_def)
  then show ?thesis using g(3) by simp
qed

text \<open>
  C9, amended. When the operation is not done when created, not done at the first two
  status requests and done at the third, with a video URI, \<open>generate_video\<close> returns
  after exactly three status requests (numbers 0, 1, 2), whatever the fetch of the
  asset does, and it emits at most one media item. When the fetch succeeds it emits
  exactly one, of type video, carrying the object URL, and reports that the video is
  ready. When the fetch fails it emits none, logs the error and returns the text
  \<open>Error executing tool: \<close> followed by the error's message.
\<close>

theorem video_polling_three_checks:
  assumes "generateVideos env (arg_prompt a) = Inr op0" and "\<not> op_done op0"
    and "getVideosOperation env 0 = Inr op1" and "\<not> op_done op1"
    and "getVideosOperation env 1 = Inr op2" and "\<not> op_done op2"
    and "getVideosOperation env 2 = Inr op3" and "op_done op3"
    and "truthy (op_videoUri op3)"
  shows "\<exists>effects r.
           executeTool env ''generate_video'' (Some a) apiKey activeFile = Some (effects, r)
         \<and> status_checks effects = [0, 1, 2]
         \<and> length (media_items effects) \<le> 1
         \<and> (\<forall>url. fetchObjectURL env (str (op_videoUri op3) @ ''&key='' @ apiKey) = Inr url \<longrightarrow>
               media_items effects =
                 [\<lparr> item_id = randomId env, item_type = Video, item_url = Some url,
                    item_content = None, item_title = arg_prompt a, item_metadata = None,
                    item_timestamp = localeTime env \<rparr>]
               \<and> r = Inr (Result (Some ''Video generated and ready to play.'')))
         \<and> (\<forall>e. fetchObjectURL env (str (op_videoUri op3) @ ''&key='' @ apiKey) = Inl e \<longrightarrow>
               media_items effects = []
               \<and> ConsoleError e \<in> set effects
               \<and> r = Inr (Result (Some (''Error executing tool: '' @ message e))))"
proof -
  have p: "poll (getVideosOperation env) 0 op0 = Some (3, Inr op3)"
    using assms(2-8) by (intro poll_three)
  let ?address = "str (op_videoUri op3) @ ''&key='' @ apiKey"
  have body: "tool_body env ''generate_video'' (Some a) apiKey activeFile =
                video_finished env (arg_prompt a) apiKey
                  (VideosRequested (arg_prompt a) # poll_effects 3) op3"
    by (simp add: tool_body_def generate_video_def read_prop_def assms(1) p)
  show ?thesis
  proof (cases "fetchObjectURL env ?address")
    case (Inl e)
    then show ?thesis
      using assms(9)
      by (simp add: executeTool_def body video_finished_def Let_def poll_effects_three)
  next
    case (Inr url)
    then show ?thesis
      using assms(9)
      by (simp add: executeTool_def body video_finished_def Let_def poll_effects_three)
  qed
qed

theorem video_polling_three_checks_witness:
  "\<exists>effects.
     executeTool video_ready_at_third ''generate_video''
       (Some \<lparr> arg_url = None, arg_query = None, arg_prompt = Some ''a red kite'',
               arg_aspectRatio = None \<rparr>) ''KEY'' None =
       Some (effects, Inr (Result (Some ''Video generated and ready to play.'')))
     \<and> status_checks effects = [0, 1, 2]
     \<and> map item_type (media_items effects) = [Video]"
proof -
  let ?a = "\<lparr> arg_url = None, arg_query = None, arg_prompt = Some ''a red kite'',
               arg_aspectRatio = None \<rparr>"
  let ?pending = "\<lparr> op_done = False, op_videoUri = None \<rparr>"
  let ?ready = "\<lparr> op_done = True, op_videoUri = Some ''https://video.example/v1?alt=media'' \<rparr>"
  have h1: "generateVideos video_ready_at_third (arg_prompt ?a) = Inr ?pending"
    and h3: "getVideosOperation video_ready_at_third 0 = Inr ?pending"
    and h5: "getVideosOperation video_ready_at_third 1 = Inr ?pending"
    and h7: "getVideosOperation video_ready_at_third 2 = Inr ?ready"
    by (simp_all add: video_ready_at_third_def offline_def)
  have h2: "\<not> op_done ?pending" and h8: "op_done ?ready" and h9: "truthy (op_videoUri ?ready)"
    by (simp_all add: truthy_def)
  have f: "fetchObjectURL video_ready_at_third
             (str (op_videoUri ?ready) @ ''&key='' @ ''KEY'') = Inr ''blob:7f3a''"
    by (simp add: video_ready_at_third_def offline_def)
  from video_polling_three_checks[OF h1 h2 h3 h2 h5 h2 h7 h8 h9, of "''KEY''" None] f
  show ?thesis by fastforce
qed

subsection \<open>A video operation that is never done\<close>

lemma poll_never_aux:
  assumes "poll getOp k operation = Some r"
  shows "\<not> op_done operation \<longrightarrow>
         (\<forall>j. \<exists>pending. getOp j = Inr pending \<and> \<not> op_done pending) \<longrightarrow> False"
proof (rule poll.raw_induct[where P = "\<lambda>getOp k operation r. \<not> op_done operation \<longrightarrow>
         (\<forall>j. \<exists>pending. getOp j = Inr pending \<and> \<not> op_done pending) \<longrightarrow> False", OF _ assms])
  fix f :: "(nat \<Rightarrow> exn + operation) \<Rightarrow> nat \<Rightarrow> operation \<Rightarrow> (nat \<times> (exn + operation)) option"
    and getOp k operation r
  assume IH: "\<And>getOp k operation r. f getOp k operation = Some r \<Longrightarrow>
                \<not> op_done operation \<longrightarrow>
                (\<forall>j. \<exists>pending. getOp j = Inr pending \<and> \<not> op_done pending) \<longrightarrow> False"
    and body: "(if op_done operation then Some (k, Inr operation)
                else case getOp k of Inl e \<Rightarrow> Some (Suc k, Inl e)
                     | Inr operation' \<Rightarrow> f getOp (Suc k) operation') = Some r"
  show "\<not> op_done operation \<longrightarrow>
        (\<forall>j. \<exists>pending. getOp j = Inr pending \<and> \<not> op_done pending) \<longrightarrow> False"
  proof (intro impI)
    assume nd: "\<not> op_done operation"
      and all: "\<forall>j. \<exists>pending. getOp j = Inr pending \<and> \<not> op_done pending"
    from all obtain pending where p: "getOp k = Inr pending" "\<not> op_done pending" by blast
    from body nd p have "f getOp (Suc k) pending = Some r" by simp
    from IH[OF this] p(2) all show False by blast
  qed
qed

lemma poll_never:
  assumes "\<not> op_done operation"
    and "\<forall>j. \<exists>pending. getOp j = Inr pending \<and> \<not> op_done pending"
  shows "poll getOp k operation = None"
proof (cases "poll getOp k operation")
  case None
  then show ?thesis .
next
  case (Some r)
  from poll_never_aux[OF Some] assms show ?thesis by blast
qed

section \<open>Properties of the session orchestrator\<close>

text \<open>
  C8. With no key configured (\<open>API_KEY\<close> undefined or empty), whatever the state before
  and whatever the remote side would do, a connection attempt fails with the error
  \<open>API_KEY not found.\<close>, which \<open>connect\<close> catches and logs as an initialisation failure;
  the states set are CONNECTING, ERROR, DISCONNECTED, in this order, and the attempt
  ends DISCONNECTED with no audio manager, no session and the microphone flag off.
  \<open>ai.live.connect\<close> is never called, so no callback exists, and no microphone request
  is made.
\<close>

theorem connect_without_credential:
  assumes "\<not> truthy (API_KEY env)"
  shows "connectionState (fst (session_attempt env st remote)) = DISCONNECTED
       \<and> states_set (snd (session_attempt env st remote)) = [CONNECTING, ERROR, DISCONNECTED]
       \<and> MicrophoneRequested \<notin> set (snd (session_attempt env st remote))
       \<and> LiveConnectCalled \<notin> set (snd (session_attempt env st remote))
       \<and> AddLog SYSTEM ''Initialization Failed: API_KEY not found.'' ErrorLog
            \<in> set (snd (session_attempt env st remote))
       \<and> audioManagerRef (fst (session_attempt env st remote)) = None
       \<and> \<not> sessionRef (fst (session_attempt env st remote))
       \<and> \<not> isMicActive (fst (session_attempt env st remote))"
  using assms
  by (simp add: session_attempt_def connect_def connect_failed_def disconnect_def Let_def)

theorem connect_without_credential_witness:
  "\<not> truthy (API_KEY no_credential)
   \<and> connectionState (fst (session_attempt no_credential initial_app [RemoteOpen])) = DISCONNECTED
   \<and> states_set (snd (session_attempt no_credential initial_app [RemoteOpen]))
       = [CONNECTING, ERROR, DISCONNECTED]
   \<and> MicrophoneRequested \<notin> set (snd (session_attempt no_credential initial_app [RemoteOpen]))"
proof -
  have h: "\<not> truthy (API_KEY no_credential)" by (simp add: no_credential_def truthy_def)
  show ?thesis
    using connect_without_credential[OF h, of initial_app "[RemoteOpen]"] h by simp
qed

lemma open_requests_microphone:
  "MicrophoneRequested \<in> set (snd (session_attempt (no_credential \<lparr> API_KEY := Some ''KEY'' \<rparr>)
                                       initial_app [RemoteOpen]))"
  by (simp add: session_attempt_def connect_def onopen_def no_credential_def initial_app_def
      truthy_def new_AudioManager_def Let_def)

subsection \<open>Inbound messages\<close>

lemma filter_tool_events [simp]: "filter is_call_or_response (tool_events effects) = []"
  by (induction effects rule: tool_events.induct) (simp_all add: handleMediaGenerated_def)

lemma tool_events_no_play: "PlayAudioChunkCalled d \<notin> set (tool_events effects)"
  by (induction effects rule: tool_events.induct) (simp_all add: handleMediaGenerated_def)

lemma dispatch_calls_no_play:
  "PlayAudioChunkCalled d \<notin> set (fst (dispatch_calls env apiKey activeFile fcs))"
proof (induction fcs)
  case Nil
  then show ?case by simp
next
  case (Cons fc fcs)
  then show ?case
    by (auto simp: tool_events_no_play Let_def split: option.splits sum.splits prod.splits)
qed

lemma dispatch_calls_sequence:
  assumes "\<forall>fc \<in> set fcs. executeTool env (fc_name fc) (fc_args fc) apiKey activeFile \<noteq> None"
  shows "snd (dispatch_calls env apiKey activeFile fcs)
       \<and> (\<exists>rs. length rs = length fcs
              \<and> filter is_call_or_response (fst (dispatch_calls env apiKey activeFile fcs)) =
                  concat (map2 (\<lambda>fc r. [ToolCalled fc, SendToolResponse (fc_id fc) (fc_name fc) r])
                            fcs rs)
              \<and> (\<forall>i < length fcs. \<exists>effects.
                    executeTool env (fc_name (fcs ! i)) (fc_args (fcs ! i)) apiKey activeFile =
                      Some (effects, Inr (rs ! i))))"
  using assms
proof (induction fcs)
  case Nil
  then show ?case by simp
next
  case (Cons fc fcs)
  from Cons.prems obtain effects res where
    ex: "executeTool env (fc_name fc) (fc_args fc) apiKey activeFile = Some (effects, res)"
    by (cases "executeTool env (fc_name fc) (fc_args fc) apiKey activeFile") auto
  have "\<forall>effects e. executeTool env (fc_name fc) (fc_args fc) apiKey activeFile
          \<noteq> Some (effects, Inl e)"
    by (auto simp: executeTool_def split: option.splits sum.splits prod.splits)
  with ex obtain r where r: "res = Inr r" by (cases res) auto
  from Cons.prems have rest: "\<forall>fc \<in> set fcs.
      executeTool env (fc_name fc) (fc_args fc) apiKey activeFile \<noteq> None" by simp
  from Cons.IH[OF rest] obtain rs where
    fin: "snd (dispatch_calls env apiKey activeFile fcs)"
    and len: "length rs = length fcs"
    and seq: "filter is_call_or_response (fst (dispatch_calls env apiKey activeFile fcs)) =
                  concat (map2 (\<lambda>fc r. [ToolCalled fc, SendToolResponse (fc_id fc) (fc_name fc) r])
                            fcs rs)"
    and each: "\<forall>i < length fcs. \<exists>effects.
                    executeTool env (fc_name (fcs ! i)) (fc_args (fcs ! i)) apiKey activeFile =
                      Some (effects, Inr (rs ! i))"
    by blast
  obtain events finished where d: "dispatch_calls env apiKey activeFile fcs = (events, finished)"
    by (cases "dispatch_calls env apiKey activeFile fcs")
  have 1: "snd (dispatch_calls env apiKey activeFile (fc # fcs))"
    using fin d by (simp add: ex r Let_def)
  have 2: "filter is_call_or_response (fst (dispatch_calls env apiKey activeFile (fc # fcs))) =
             concat (map2 (\<lambda>fc r. [ToolCalled fc, SendToolResponse (fc_id fc) (fc_name fc) r])
                       (fc # fcs) (r # rs))"
    using seq d by (simp add: ex r Let_def)
  have 3: "\<forall>i < length (fc # fcs). \<exists>effects.
             executeTool env (fc_name ((fc # fcs) ! i)) (fc_args ((fc # fcs) ! i)) apiKey activeFile =
               Some (effects, Inr ((r # rs) ! i))"
  proof (intro allI impI)
    fix i assume "i < length (fc # fcs)"
    then show "\<exists>effects.
             executeTool env (fc_name ((fc # fcs) ! i)) (fc_args ((fc # fcs) ! i)) apiKey activeFile =
               Some (effects, Inr ((r # rs) ! i))"
      using each ex r by (cases i) auto
  qed
  have 4: "length (r # rs) = length (fc # fcs)" using len by simp
  from 1 2 3 4 show ?case by blast
qed


lemma dispatch_calls_append:
  assumes "\<forall>fc \<in> set pre. executeTool env (fc_name fc) (fc_args fc) apiKey activeFile \<noteq> None"
  shows "dispatch_calls env apiKey activeFile (pre @ later) =
           (fst (dispatch_calls env apiKey activeFile pre)
              @ fst (dispatch_calls env apiKey activeFile later),
            snd (dispatch_calls env apiKey activeFile later))"
  using assms
proof (induction pre)
  case Nil
  then show ?case by simp
next
  case (Cons fc pre)
  from Cons.prems obtain effects res where
    ex: "executeTool env (fc_name fc) (fc_args fc) apiKey activeFile = Some (effects, res)"
    by (cases "executeTool env (fc_name fc) (fc_args fc) apiKey activeFile") auto
  from Cons.prems have "\<forall>fc \<in> set pre.
      executeTool env (fc_name fc) (fc_args fc) apiKey activeFile \<noteq> None" by simp
  from Cons.IH[OF this] show ?case
    by (cases res) (simp_all add: ex Let_def split: prod.splits)
qed

lemma dispatch_calls_blocked:
  assumes "executeTool env (fc_name fc) (fc_args fc) apiKey activeFile = None"
  shows "dispatch_calls env apiKey activeFile (fc # rest) =
           ([AddLog JARVIS (''Activating Tool: '' @ fc_name fc) Command, ToolCalled fc], False)"
  using assms by simp

text \<open>
  C2, amended. The calls of a message are dispatched one after the other, in the order
  of the message. When every call of the message settles, the calls and responses seen
  from outside are exactly: first call, its response, second call, its response, and so
  on; there is one response per call, carrying the call's id and name as received and
  the object \<open>executeTool\<close> returned for it. When a call never settles, each call before
  it has been made and answered in this way, that call has been made, and no later call
  of the message is ever dispatched or answered.
\<close>

theorem tool_calls_dispatched_in_sequence:
  assumes "toolCall msg = Some (Some fcs)"
  shows "((\<forall>fc \<in> set fcs.
             executeTool (toolWorld env) (fc_name fc) (fc_args fc) apiKey (activeFileRef st) \<noteq> None)
          \<longrightarrow> (\<exists>rs. length rs = length fcs
                \<and> filter is_call_or_response (snd (onmessage env apiKey st now msg)) =
                    concat (map2 (\<lambda>fc r. [ToolCalled fc,
                                           SendToolResponse (fc_id fc) (fc_name fc) r]) fcs rs)
                \<and> (\<forall>i < length fcs. \<exists>effects.
                      executeTool (toolWorld env) (fc_name (fcs ! i)) (fc_args (fcs ! i)) apiKey
                        (activeFileRef st) = Some (effects, Inr (rs ! i)))))
       \<and> (\<forall>pre fc rest.
             fcs = pre @ fc # rest
             \<and> (\<forall>c \<in> set pre.
                   executeTool (toolWorld env) (fc_name c) (fc_args c) apiKey (activeFileRef st) \<noteq> None)
             \<and> executeTool (toolWorld env) (fc_name fc) (fc_args fc) apiKey (activeFileRef st) = None
             \<longrightarrow> (\<exists>rs. length rs = length pre
                   \<and> filter is_call_or_response (snd (onmessage env apiKey st now msg)) =
                       concat (map2 (\<lambda>fc r. [ToolCalled fc,
                                              SendToolResponse (fc_id fc) (fc_name fc) r]) pre rs)
                       @ [ToolCalled fc]))"
proof (intro conjI impI allI)
  let ?w = "toolWorld env" and ?f = "activeFileRef st"
  assume all: "\<forall>fc \<in> set fcs. executeTool ?w (fc_name fc) (fc_args fc) apiKey ?f \<noteq> None"
  from dispatch_calls_sequence[OF all] obtain rs where
    fin: "snd (dispatch_calls ?w apiKey ?f fcs)"
    and len: "length rs = length fcs"
    and seq: "filter is_call_or_response (fst (dispatch_calls ?w apiKey ?f fcs)) =
                concat (map2 (\<lambda>fc r. [ToolCalled fc, SendToolResponse (fc_id fc) (fc_name fc) r])
                          fcs rs)"
    and each: "\<forall>i < length fcs. \<exists>effects.
                 executeTool ?w (fc_name (fcs ! i)) (fc_args (fcs ! i)) apiKey ?f =
                   Some (effects, Inr (rs ! i))"
    by blast
  obtain events finished where d: "dispatch_calls ?w apiKey ?f fcs = (events, finished)"
    by (cases "dispatch_calls ?w apiKey ?f fcs")
  have "filter is_call_or_response (snd (onmessage env apiKey st now msg)) =
          filter is_call_or_response events"
    using fin d assms
    by (simp add: onmessage_def Let_def split: option.splits prod.splits)
  with seq d len each
  show "\<exists>rs. length rs = length fcs
          \<and> filter is_call_or_response (snd (onmessage env apiKey st now msg)) =
              concat (map2 (\<lambda>fc r. [ToolCalled fc, SendToolResponse (fc_id fc) (fc_name fc) r])
                        fcs rs)
          \<and> (\<forall>i < length fcs. \<exists>effects.
                executeTool ?w (fc_name (fcs ! i)) (fc_args (fcs ! i)) apiKey ?f =
                  Some (effects, Inr (rs ! i)))"
    by auto
next
  let ?w = "toolWorld env" and ?f = "activeFileRef st"
  fix pre fc rest
  assume h: "fcs = pre @ fc # rest
             \<and> (\<forall>c \<in> set pre. executeTool ?w (fc_name c) (fc_args c) apiKey ?f \<noteq> None)
             \<and> executeTool ?w (fc_name fc) (fc_args fc) apiKey ?f = None"
  then have settled: "\<forall>c \<in> set pre. executeTool ?w (fc_name c) (fc_args c) apiKey ?f \<noteq> None"
    and hang: "executeTool ?w (fc_name fc) (fc_args fc) apiKey ?f = None"
    and split: "fcs = pre @ fc # rest"
    by simp_all
  from dispatch_calls_sequence[OF settled] obtain rs where
    len: "length rs = length pre"
    and seq: "filter is_call_or_response (fst (dispatch_calls ?w apiKey ?f pre)) =
                concat (map2 (\<lambda>fc r. [ToolCalled fc, SendToolResponse (fc_id fc) (fc_name fc) r])
                          pre rs)"
    by blast
  have d: "dispatch_calls ?w apiKey ?f fcs =
             (fst (dispatch_calls ?w apiKey ?f pre)
                @ [AddLog JARVIS (''Activating Tool: '' @ fc_name fc) Command, ToolCalled fc],
              False)"
    unfolding split dispatch_calls_append[OF settled] dispatch_calls_blocked[OF hang] by simp
  have "snd (onmessage env apiKey st now msg) =
          fst (dispatch_calls ?w apiKey ?f pre)
            @ [AddLog JARVIS (''Activating Tool: '' @ fc_name fc) Command, ToolCalled fc]"
    using assms by (simp add: onmessage_def d)
  with seq len
  show "\<exists>rs. length rs = length pre
          \<and> filter is_call_or_response (snd (onmessage env apiKey st now msg)) =
              concat (map2 (\<lambda>fc r. [ToolCalled fc, SendToolResponse (fc_id fc) (fc_name fc) r])
                        pre rs)
              @ [ToolCalled fc]"
    by auto
qed


lemma time_call_runs:
  "executeTool offline (fc_name time_call) (fc_args time_call) ''KEY'' None =
     Some ([], Inr (Result (Some ''Current time: 10:00:00'')))"
  by (simp add: executeTool_def tool_body_def get_current_time_def time_call_def offline_def)

lemma website_call_runs:
  "executeTool offline (fc_name website_call) (fc_args website_call) ''KEY'' None =
     Some ([WindowOpen ''https://example.com''],
           Inr (Result (Some ''Opened website: https://example.com'')))"
  by (simp add: executeTool_def tool_body_def open_website_def read_prop_def website_call_def
      Let_def)

lemma video_call_hangs:
  "executeTool video_never_ready (fc_name video_call) (fc_args video_call) ''KEY'' None = None"
proof -
  have "poll (getVideosOperation video_never_ready) 0 \<lparr> op_done = False, op_videoUri = None \<rparr> = None"
    by (rule poll_never) (simp_all add: video_never_ready_def)
  then show ?thesis
    by (simp add: executeTool_def tool_body_def generate_video_def read_prop_def video_call_def
        video_never_ready_def offline_def)
qed

lemma time_then_website_events:
  "snd (onmessage (with_key offline) ''KEY'' initial_app 0 time_then_website) =
     [AddLog JARVIS ''Activating Tool: get_current_time'' Command,
      ToolCalled time_call,
      ToolSettled time_call,
      SendToolResponse ''1'' ''get_current_time'' (Result (Some ''Current time: 10:00:00'')),
      AddLog JARVIS ''Activating Tool: open_website'' Command,
      ToolCalled website_call,
      ToolDid (WindowOpen ''https://example.com''),
      ToolSettled website_call,
      SendToolResponse ''2'' ''open_website'' (Result (Some ''Opened website: https://example.com''))]"
proof -
  have a: "activeFileRef initial_app = None" by (simp add: initial_app_def)
  show ?thesis
    by (simp add: onmessage_def time_then_website_def with_key_def a time_call_runs
        website_call_runs first_part_def)
      (simp add: time_call_def website_call_def)
qed

text \<open>
  C2, as stated, fails. With a time call followed by a website call, the second call is
  made only after the first has settled and been answered: the dispatch is not
  concurrent. With a video call whose operation is never done followed by a time call,
  the handler stops at the video call: the time call is never dispatched and gets no
  result.
\<close>

theorem concurrent_dispatch_counterexample:
  "\<not> dispatched_concurrently
       (snd (onmessage (with_key offline) ''KEY'' initial_app 0 time_then_website))
   \<and> snd (onmessage (with_key video_never_ready) ''KEY'' initial_app 0 video_then_time) =
       [AddLog JARVIS ''Activating Tool: generate_video'' Command, ToolCalled video_call]"
proof -
  have a: "activeFileRef initial_app = None" by (simp add: initial_app_def)
  have 1: "\<not> dispatched_concurrently
       (snd (onmessage (with_key offline) ''KEY'' initial_app 0 time_then_website))"
    unfolding time_then_website_events by (simp add: dispatched_concurrently_def)
  have 2: "snd (onmessage (with_key video_never_ready) ''KEY'' initial_app 0 video_then_time) =
       [AddLog JARVIS ''Activating Tool: generate_video'' Command, ToolCalled video_call]"
    by (simp add: onmessage_def video_then_time_def with_key_def a video_call_hangs)
      (simp add: video_call_def)
  show ?thesis using 1 2 by simp
qed

theorem tool_calls_dispatched_in_sequence_witness:
  "toolCall time_then_website = Some (Some [time_call, website_call])
   \<and> (\<exists>r1 r2. filter is_call_or_response
         (snd (onmessage (with_key offline) ''KEY'' initial_app 0 time_then_website)) =
         [ToolCalled time_call, SendToolResponse ''1'' ''get_current_time'' r1,
          ToolCalled website_call, SendToolResponse ''2'' ''open_website'' r2])"
proof -
  have h: "toolCall time_then_website = Some (Some [time_call, website_call])"
    by (simp add: time_then_website_def)
  have a: "activeFileRef initial_app = None" by (simp add: initial_app_def)
  have settle: "\<forall>fc \<in> set [time_call, website_call].
      executeTool (toolWorld (with_key offline)) (fc_name fc) (fc_args fc) ''KEY''
        (activeFileRef initial_app) \<noteq> None"
    by (simp add: a with_key_def time_call_runs website_call_runs)
  from tool_calls_dispatched_in_sequence[OF h, of "with_key offline" "''KEY''" initial_app 0] settle
  obtain rs where len: "length rs = length [time_call, website_call]"
    and seq: "filter is_call_or_response
         (snd (onmessage (with_key offline) ''KEY'' initial_app 0 time_then_website)) =
         concat (map2 (\<lambda>fc r. [ToolCalled fc, SendToolResponse (fc_id fc) (fc_name fc) r])
                   [time_call, website_call] rs)"
    by blast
  from len obtain r1 r2 where rs: "rs = [r1, r2]"
    by (cases rs; cases "tl rs") auto
  have "filter is_call_or_response
         (snd (onmessage (with_key offline) ''KEY'' initial_app 0 time_then_website)) =
         [ToolCalled time_call, SendToolResponse ''1'' ''get_current_time'' r1,
          ToolCalled website_call, SendToolResponse ''2'' ''open_website'' r2]"
    unfolding seq rs by (simp add: time_call_def website_call_def)
  with h show ?thesis by blast
qed

lemma tool_events_no_transcript [simp]: "filter is_audio_or_transcript (tool_events effects) = []"
  by (induction effects rule: tool_events.induct) (simp_all add: handleMediaGenerated_def)

lemma dispatch_calls_no_transcript:
  "filter is_audio_or_transcript (fst (dispatch_calls env apiKey activeFile fcs)) = []"
proof (induction fcs)
  case Nil
  then show ?case by simp
next
  case (Cons fc fcs)
  then show ?case
    by (auto simp: Let_def split: option.splits sum.splits prod.splits)
qed

lemma dispatch_calls_hangs:
  assumes "fc \<in> set fcs"
    and "executeTool env (fc_name fc) (fc_args fc) apiKey activeFile = None"
  shows "\<not> snd (dispatch_calls env apiKey activeFile fcs)"
  using assms(1)
proof (induction fcs)
  case Nil
  then show ?case by simp
next
  case (Cons c fcs)
  show ?case
  proof (cases "executeTool env (fc_name c) (fc_args c) apiKey activeFile")
    case None
    then show ?thesis by simp
  next
    case (Some r)
    with assms(2) have "fc \<noteq> c" by auto
    with Cons.prems have "fc \<in> set fcs" by simp
    from Cons.IH[OF this] Some show ?thesis
      by (auto simp: Let_def split: sum.splits prod.splits)
  qed
qed

lemma onmessage_unfinished:
  assumes "(case toolCall msg of
               None \<Rightarrow> ([], True)
             | Some None \<Rightarrow> ([], False)
             | Some (Some functionCalls) \<Rightarrow>
                 dispatch_calls (toolWorld env) apiKey (activeFileRef st) functionCalls)
           = (tools, False)"
  shows "onmessage env apiKey st now msg = (st, tools)"
  using assms by (simp add: onmessage_def)

lemma onmessage_finished:
  assumes "(case toolCall msg of
               None \<Rightarrow> ([], True)
             | Some None \<Rightarrow> ([], False)
             | Some (Some functionCalls) \<Rightarrow>
                 dispatch_calls (toolWorld env) apiKey (activeFileRef st) functionCalls)
           = (tools, True)"
  shows "onmessage env apiKey st now msg =
           (case first_part msg of
              None \<Rightarrow> (st, tools)
            | Some p \<Rightarrow>
                (if truthy (part_inlineData p) \<and> audioManagerRef st \<noteq> None
                 then st \<lparr> audioManagerRef :=
                        map_option (\<lambda>m. fst (playAudioChunk m now (str (part_inlineData p))))
                          (audioManagerRef st) \<rparr>
                 else st,
                 tools
                 @ (if truthy (part_inlineData p) \<and> audioManagerRef st \<noteq> None
                    then [PlayAudioChunkCalled (str (part_inlineData p))] else [])
                 @ (if truthy (part_text p) then [AddLog JARVIS (str (part_text p)) Info] else [])))"
  using assms
  by (auto simp: onmessage_def truthy_def str_def Let_def split: option.splits)

text \<open>
  C3, as stated, fails. For a message with a text in its first part and an audio
  payload and a text in its second, the handler logs the first text and does nothing
  else: the payload is not enqueued and the second text is not logged.
\<close>

theorem first_part_only_counterexample:
  "onmessage (with_key offline) ''KEY'' connected_app 0 audio_in_second_part =
     (connected_app, [AddLog JARVIS ''Hello'' Info])"
  by (simp add: onmessage_def audio_in_second_part_def first_part_def truthy_def)

text \<open>
  C3, amended. The handler reaches the parts of a message only when the tool loop has
  come to its end: the message has no \<open>toolCall\<close>, or its \<open>toolCall\<close> has
  \<open>functionCalls\<close> and every one of these calls settles. Then, of a message whose list
  of parts is not empty, only the first part is looked at: if it carries a non-empty
  inline audio payload and an audio manager is held, that payload is enqueued on the
  manager, and otherwise the state is as before; if it carries a non-empty text, that
  text is logged as a transcript entry. These are all the enqueues and transcript
  entries of the message, the enqueue first: no payload and no text of a later part is
  ever enqueued or logged, and a message without parts gives none. When the \<open>toolCall\<close>
  has no \<open>functionCalls\<close> the handler fails before it does anything, and when a call
  never settles it never comes to the parts: in both cases nothing is enqueued, no
  transcript entry is logged and the state is as before.
\<close>

theorem first_part_audio_and_text:
  "((toolCall msg = None
     \<or> (\<exists>fcs. toolCall msg = Some (Some fcs)
           \<and> (\<forall>fc \<in> set fcs. executeTool (toolWorld env) (fc_name fc) (fc_args fc) apiKey
                  (activeFileRef st) \<noteq> None)))
    \<longrightarrow>
      (\<forall>p ps. modelTurnParts msg = Some (p # ps) \<longrightarrow>
         (\<forall>d m. part_inlineData p = Some d \<and> d \<noteq> [] \<and> audioManagerRef st = Some m \<longrightarrow>
            PlayAudioChunkCalled d \<in> set (snd (onmessage env apiKey st now msg))
            \<and> fst (onmessage env apiKey st now msg)
                = st \<lparr> audioManagerRef := Some (fst (playAudioChunk m now d)) \<rparr>)
         \<and> (part_inlineData p = None \<or> part_inlineData p = Some [] \<or> audioManagerRef st = None \<longrightarrow>
              fst (onmessage env apiKey st now msg) = st)
         \<and> (\<forall>t. part_text p = Some t \<and> t \<noteq> [] \<longrightarrow>
              AddLog JARVIS t Info \<in> set (snd (onmessage env apiKey st now msg)))
         \<and> (\<forall>d. PlayAudioChunkCalled d \<in> set (snd (onmessage env apiKey st now msg)) \<longrightarrow>
              part_inlineData p = Some d \<and> d \<noteq> [] \<and> audioManagerRef st \<noteq> None)
         \<and> (\<forall>t. AddLog JARVIS t Info \<in> set (snd (onmessage env apiKey st now msg)) \<longrightarrow>
              part_text p = Some t \<and> t \<noteq> [])
         \<and> filter is_audio_or_transcript (snd (onmessage env apiKey st now msg)) =
             (case part_inlineData p of
                None \<Rightarrow> []
              | Some d \<Rightarrow> if d \<noteq> [] \<and> audioManagerRef st \<noteq> None
                          then [PlayAudioChunkCalled d] else [])
             @ (case part_text p of
                  None \<Rightarrow> []
                | Some t \<Rightarrow> if t \<noteq> [] then [AddLog JARVIS t Info] else []))
      \<and> (modelTurnParts msg = None \<or> modelTurnParts msg = Some [] \<longrightarrow>
           filter is_audio_or_transcript (snd (onmessage env apiKey st now msg)) = []
           \<and> fst (onmessage env apiKey st now msg) = st))
   \<and> (toolCall msg = Some None \<longrightarrow> onmessage env apiKey st now msg = (st, []))
   \<and> (\<forall>fcs fc. toolCall msg = Some (Some fcs) \<and> fc \<in> set fcs
          \<and> executeTool (toolWorld env) (fc_name fc) (fc_args fc) apiKey (activeFileRef st) = None
        \<longrightarrow> filter is_audio_or_transcript (snd (onmessage env apiKey st now msg)) = []
            \<and> fst (onmessage env apiKey st now msg) = st)"
proof (intro conjI impI allI)
  let ?w = "toolWorld env" and ?f = "activeFileRef st"
  let ?loop = "case toolCall msg of
               None \<Rightarrow> ([], True)
             | Some None \<Rightarrow> ([], False)
             | Some (Some functionCalls) \<Rightarrow> dispatch_calls ?w apiKey ?f functionCalls"
  let ?events = "snd (onmessage env apiKey st now msg)"
  have settled: "\<exists>tools. ?loop = (tools, True) \<and> filter is_audio_or_transcript tools = []"
    if "toolCall msg = None
        \<or> (\<exists>fcs. toolCall msg = Some (Some fcs)
              \<and> (\<forall>fc \<in> set fcs. executeTool ?w (fc_name fc) (fc_args fc) apiKey ?f \<noteq> None))"
  proof (cases "toolCall msg")
    case None
    then show ?thesis by simp
  next
    case (Some tc)
    with that obtain fcs where fcs: "toolCall msg = Some (Some fcs)"
      and all: "\<forall>fc \<in> set fcs. executeTool ?w (fc_name fc) (fc_args fc) apiKey ?f \<noteq> None"
      by auto
    from dispatch_calls_sequence[OF all] have "snd (dispatch_calls ?w apiKey ?f fcs)" by blast
    then have "dispatch_calls ?w apiKey ?f fcs = (fst (dispatch_calls ?w apiKey ?f fcs), True)"
      by (cases "dispatch_calls ?w apiKey ?f fcs") simp
    then have loop: "?loop = (fst (dispatch_calls ?w apiKey ?f fcs), True)"
      unfolding fcs option.case .
    show ?thesis
      using loop dispatch_calls_no_transcript[of ?w apiKey ?f fcs] by blast
  qed
  have with_parts:
    "?events = tools
         @ (if truthy (part_inlineData p) \<and> audioManagerRef st \<noteq> None
            then [PlayAudioChunkCalled (str (part_inlineData p))] else [])
         @ (if truthy (part_text p) then [AddLog JARVIS (str (part_text p)) Info] else [])
     \<and> fst (onmessage env apiKey st now msg) =
         (if truthy (part_inlineData p) \<and> audioManagerRef st \<noteq> None
          then st \<lparr> audioManagerRef :=
                 map_option (\<lambda>m. fst (playAudioChunk m now (str (part_inlineData p))))
                   (audioManagerRef st) \<rparr>
          else st)"
    if "?loop = (tools, True)" and "modelTurnParts msg = Some (p # ps)" for tools p ps
    using onmessage_finished[OF that(1), of now] that(2) by (simp add: first_part_def)
  have quiet: "x \<notin> set tools" if "filter is_audio_or_transcript tools = []"
    and "is_audio_or_transcript x" for tools x
    using that by (auto simp: filter_empty_conv)
  {
    fix p ps d m
    assume s: "toolCall msg = None
        \<or> (\<exists>fcs. toolCall msg = Some (Some fcs)
              \<and> (\<forall>fc \<in> set fcs. executeTool ?w (fc_name fc) (fc_args fc) apiKey ?f \<noteq> None))"
      and parts: "modelTurnParts msg = Some (p # ps)"
      and a: "part_inlineData p = Some d \<and> d \<noteq> [] \<and> audioManagerRef st = Some m"
    from settled[OF s] obtain tools where t: "?loop = (tools, True)" by blast
    from with_parts[OF t parts] a
    show "PlayAudioChunkCalled d \<in> set ?events"
      and "fst (onmessage env apiKey st now msg)
                = st \<lparr> audioManagerRef := Some (fst (playAudioChunk m now d)) \<rparr>"
      by (simp_all add: truthy_def str_def)
  next
    fix p ps
    assume s: "toolCall msg = None
        \<or> (\<exists>fcs. toolCall msg = Some (Some fcs)
              \<and> (\<forall>fc \<in> set fcs. executeTool ?w (fc_name fc) (fc_args fc) apiKey ?f \<noteq> None))"
      and parts: "modelTurnParts msg = Some (p # ps)"
      and a: "part_inlineData p = None \<or> part_inlineData p = Some [] \<or> audioManagerRef st = None"
    from settled[OF s] obtain tools where t: "?loop = (tools, True)" by blast
    from with_parts[OF t parts] a
    show "fst (onmessage env apiKey st now msg) = st"
      by (auto simp: truthy_def)
  next
    fix p ps t
    assume s: "toolCall msg = None
        \<or> (\<exists>fcs. toolCall msg = Some (Some fcs)
              \<and> (\<forall>fc \<in> set fcs. executeTool ?w (fc_name fc) (fc_args fc) apiKey ?f \<noteq> None))"
      and parts: "modelTurnParts msg = Some (p # ps)"
      and a: "part_text p = Some t \<and> t \<noteq> []"
    from settled[OF s] obtain tools where t: "?loop = (tools, True)" by blast
    from with_parts[OF t parts] a
    show "AddLog JARVIS t Info \<in> set ?events"
      by (simp add: truthy_def str_def)
  next
    fix p ps d
    assume s: "toolCall msg = None
        \<or> (\<exists>fcs. toolCall msg = Some (Some fcs)
              \<and> (\<forall>fc \<in> set fcs. executeTool ?w (fc_name fc) (fc_args fc) apiKey ?f \<noteq> None))"
      and parts: "modelTurnParts msg = Some (p # ps)"
      and a: "PlayAudioChunkCalled d \<in> set ?events"
    from settled[OF s] obtain tools where t: "?loop = (tools, True)"
      and q: "filter is_audio_or_transcript tools = []" by blast
    have "PlayAudioChunkCalled d \<notin> set tools" using q by (rule quiet) simp
    with with_parts[OF t parts] a
    have "part_inlineData p = Some d \<and> d \<noteq> [] \<and> audioManagerRef st \<noteq> None"
      by (auto simp: truthy_def str_def split: if_splits option.splits)
    then show "part_inlineData p = Some d" and "d \<noteq> []" and "audioManagerRef st \<noteq> None"
      by simp_all
  next
    fix p ps t
    assume s: "toolCall msg = None
        \<or> (\<exists>fcs. toolCall msg = Some (Some fcs)
              \<and> (\<forall>fc \<in> set fcs. executeTool ?w (fc_name fc) (fc_args fc) apiKey ?f \<noteq> None))"
      and parts: "modelTurnParts msg = Some (p # ps)"
      and a: "AddLog JARVIS t Info \<in> set ?events"
    from settled[OF s] obtain tools where tl: "?loop = (tools, True)"
      and q: "filter is_audio_or_transcript tools = []" by blast
    have "AddLog JARVIS t Info \<notin> set tools" using q by (rule quiet) simp
    with with_parts[OF tl parts] a
    have "part_text p = Some t \<and> t \<noteq> []"
      by (auto simp: truthy_def str_def split: if_splits option.splits)
    then show "part_text p = Some t" and "t \<noteq> []" by simp_all
  next
    fix p ps
    assume s: "toolCall msg = None
        \<or> (\<exists>fcs. toolCall msg = Some (Some fcs)
              \<and> (\<forall>fc \<in> set fcs. executeTool ?w (fc_name fc) (fc_args fc) apiKey ?f \<noteq> None))"
      and parts: "modelTurnParts msg = Some (p # ps)"
    from settled[OF s] obtain tools where t: "?loop = (tools, True)"
      and q: "filter is_audio_or_transcript tools = []" by blast
    from with_parts[OF t parts] q
    show "filter is_audio_or_transcript ?events =
             (case part_inlineData p of
                None \<Rightarrow> []
              | Some d \<Rightarrow> if d \<noteq> [] \<and> audioManagerRef st \<noteq> None
                          then [PlayAudioChunkCalled d] else [])
             @ (case part_text p of
                  None \<Rightarrow> []
                | Some t \<Rightarrow> if t \<noteq> [] then [AddLog JARVIS t Info] else [])"
      by (auto simp: truthy_def str_def split: option.splits)
  next
    assume s: "toolCall msg = None
        \<or> (\<exists>fcs. toolCall msg = Some (Some fcs)
              \<and> (\<forall>fc \<in> set fcs. executeTool ?w (fc_name fc) (fc_args fc) apiKey ?f \<noteq> None))"
      and parts: "modelTurnParts msg = None \<or> modelTurnParts msg = Some []"
    from settled[OF s] obtain tools where t: "?loop = (tools, True)"
      and q: "filter is_audio_or_transcript tools = []" by blast
    have "first_part msg = None" using parts by (auto simp: first_part_def)
    with onmessage_finished[OF t, of now] q
    show "filter is_audio_or_transcript ?events = []"
      and "fst (onmessage env apiKey st now msg) = st"
      by simp_all
  next
    assume "toolCall msg = Some None"
    then show "onmessage env apiKey st now msg = (st, [])"
      by (simp add: onmessage_def)
  next
    fix fcs fc
    assume h: "toolCall msg = Some (Some fcs) \<and> fc \<in> set fcs
          \<and> executeTool ?w (fc_name fc) (fc_args fc) apiKey ?f = None"
    then have "\<not> snd (dispatch_calls ?w apiKey ?f fcs)"
      by (intro dispatch_calls_hangs[of fc]) simp_all
    then have "dispatch_calls ?w apiKey ?f fcs = (fst (dispatch_calls ?w apiKey ?f fcs), False)"
      by (cases "dispatch_calls ?w apiKey ?f fcs") simp
    with h have "?loop = (fst (dispatch_calls ?w apiKey ?f fcs), False)" by simp
    from onmessage_unfinished[OF this, of now]
    show "filter is_audio_or_transcript ?events = []"
      and "fst (onmessage env apiKey st now msg) = st"
      by (simp_all add: dispatch_calls_no_transcript)
  }
qed

theorem first_part_audio_and_text_witness:
  "modelTurnParts audio_in_first_part =
       Some (\<lparr> part_inlineData = Some ''AAA='', part_text = Some ''Hello'' \<rparr> # [])
   \<and> toolCall audio_in_first_part = None
   \<and> snd (onmessage (with_key offline) ''KEY'' connected_app 5 audio_in_first_part)
       = [PlayAudioChunkCalled ''AAA='', AddLog JARVIS ''Hello'' Info]
   \<and> audioManagerRef (fst (onmessage (with_key offline) ''KEY'' connected_app 5 audio_in_first_part))
       = Some (fst (playAudioChunk (new_AudioManager 24000) 5 ''AAA=''))
   \<and> filter is_audio_or_transcript
       (snd (onmessage (with_key offline) ''KEY'' connected_app 5 audio_in_first_part))
       = [PlayAudioChunkCalled ''AAA='', AddLog JARVIS ''Hello'' Info]"
proof -
  let ?p = "\<lparr> part_inlineData = Some ''AAA='', part_text = Some ''Hello'' \<rparr>"
  have h1: "modelTurnParts audio_in_first_part = Some (?p # [])"
    by (simp add: audio_in_first_part_def)
  have h2: "toolCall audio_in_first_part = None"
    by (simp add: audio_in_first_part_def)
  have m: "audioManagerRef connected_app = Some (new_AudioManager 24000)"
    by (simp add: connected_app_def)
  have ev: "snd (onmessage (with_key offline) ''KEY'' connected_app 5 audio_in_first_part)
       = [PlayAudioChunkCalled ''AAA='', AddLog JARVIS ''Hello'' Info]"
    by (simp add: onmessage_def audio_in_first_part_def first_part_def truthy_def m)
  from first_part_audio_and_text[of audio_in_first_part "with_key offline" "''KEY''"
         connected_app 5] h1 h2 m
  have "fst (onmessage (with_key offline) ''KEY'' connected_app 5 audio_in_first_part)
       = connected_app \<lparr> audioManagerRef :=
           Some (fst (playAudioChunk (new_AudioManager 24000) 5 ''AAA='')) \<rparr>"
    by simp
  then have st: "audioManagerRef
         (fst (onmessage (with_key offline) ''KEY'' connected_app 5 audio_in_first_part))
       = Some (fst (playAudioChunk (new_AudioManager 24000) 5 ''AAA=''))"
    by simp
  from h1 h2 ev st show ?thesis by simp
qed

end
